theory Spec2Isabelle
  imports Main "HOL-Library.Finite_Map"
begin

section \<open>JavaScript values\<close>

text \<open>
  A function value is represented by what the builder reads from it: its declared name
  (\<open>f.name\<close>), its declared parameter names (\<open>f.length\<close> is their number; the sources
  are ES5, with no default or rest parameters) and an identity that stands for its code.
\<close>

datatype func = Func (fname: string) (fparams: "string list") (fid: nat)

text \<open>
  The values that flow through the builder and the iterator. \<open>Error name message\<close> is an
  error object; \<open>Obj\<close> is a plain object (its own enumerable properties); \<open>IterResult d v\<close>
  is the object literal \<open>{ done: d, value: v }\<close> built by the iterable protocol.
\<close>

datatype val =
    Undefined
  | Null
  | Bool bool
  | Num int
  | Str string
  | Error string string
  | Fn func
  | Obj "(string, val) fmap"
  | IterResult bool val

type_synonym obj = "(string, val) fmap"

text \<open>The result of a call: \<open>Inl v\<close> when it throws \<open>v\<close>, \<open>Inr v\<close> when it returns \<open>v\<close>.\<close>

type_synonym 'a outcome = "val + 'a"

text \<open>JavaScript truthiness, as tested by \<open>x ? a : b\<close>, \<open>!x\<close> and \<open>x || y\<close>.\<close>

fun truthy :: "val \<Rightarrow> bool" where
  "truthy Undefined = False"
| "truthy Null = False"
| "truthy (Bool b) = b"
| "truthy (Num n) = (n \<noteq> 0)"
| "truthy (Str s) = (s \<noteq> [])"
| "truthy (Error n m) = True"
| "truthy (Fn f) = True"
| "truthy (Obj m) = True"
| "truthy (IterResult d v) = True"

text \<open>
  Modelled from the spec: \<open>_.isFunction\<close> belongs to the utility module, which is not
  among the sources; it tells whether the value is callable.
\<close>

fun isFunction :: "val \<Rightarrow> bool" where
  "isFunction (Fn f) = True"
| "isFunction v = False"

text \<open>
  Modelled from the spec: \<open>_.getParamNames\<close> belongs to the utility module, which is not
  among the sources; it gives the declared parameter names of a function.
\<close>

definition getParamNames :: "func \<Rightarrow> string list" where
  "getParamNames f = fparams f"

text \<open>\<open>arguments[i]\<close>: reading past the end of the argument list gives \<open>undefined\<close>.\<close>

definition arg_at :: "val list \<Rightarrow> nat \<Rightarrow> val" where
  "arg_at arguments i = (if i < length arguments then arguments ! i else Undefined)"

text \<open>\<open>new Array(n)\<close>: a negative length throws a RangeError.\<close>

definition range_error :: val where
  "range_error = Error ''RangeError'' ''Invalid array length''"

definition new_Array :: "int \<Rightarrow> (val list) outcome" where
  "new_Array n =
     (if n < 0 then Inl range_error
      else Inr (replicate (nat n) Undefined))"

text \<open>\<open>a[i] = v\<close>: writing past the end extends the array.\<close>

definition js_set :: "val list \<Rightarrow> nat \<Rightarrow> val \<Rightarrow> val list" where
  "js_set a i v =
     (if i < length a then a[i := v]
      else a @ replicate (i - length a) Undefined @ [v])"

section \<open>The pipeline and the host\<close>

text \<open>
  The pipeline module holds the \<open>isLocked\<close> flag and the pool of coroutines. The record
  also keeps the default protocols registered through \<open>use\<close>.
\<close>

record 'p pipeline =
  isLocked :: bool
  registered :: "val list"
  pool :: 'p

text \<open>
  The closure handed to \<open>pipeline.acquireCoro\<close> as the body of the coroutine. Each
  constructor is one of the function expressions of the builder module:
  \<^item> \<open>B1 invokee self invokeeArgs\<close>: \<open>function b1() { invokee.apply(self, invokeeArgs); }\<close>
  \<^item> \<open>BInvokee invokee\<close>: the invokee itself
  \<^item> \<open>B2 invokee args\<close>: \<open>function b2() { return invokee(args); }\<close>
  \<^item> \<open>B3 invokee self args\<close>: \<open>function b3() { return invokee.call(self, args); }\<close>
  \<^item> \<open>B4 invokee self invokeeArgs\<close>: \<open>function b4() { return invokee.apply(self, invokeeArgs); }\<close>

  The calling context \<open>self\<close> is \<open>None\<close> for a call without one and \<open>Some v\<close> for a call
  on \<open>v\<close>. In code that is not strict, as the function of the generic strategy is, \<open>this\<close>
  is then the global object, or \<open>v\<close> (wrapped in an object when it is a primitive); in
  strict code, as the function of the specialised strategy is, \<open>this\<close> is \<open>undefined\<close>, or
  \<open>v\<close> as it is.
\<close>

datatype body =
    B1 func "val option" "val list"
  | BInvokee func
  | B2 func "val list"
  | B3 func "val option" "val list"
  | B4 func "val option" "val list"

text \<open>
  A suspendable function: its name, its declared parameters (its \<open>length\<close> is their
  number) and what a call does, given the calling context, the arguments and the pool.
\<close>

record 'p suspendable =
  sf_name :: string
  sf_params :: "string list"
  sf_call :: "val option \<Rightarrow> val list \<Rightarrow> 'p \<Rightarrow> val outcome \<times> 'p"

text \<open>
  What the host supplies. The pipeline module, the code of user functions and the
  JavaScript engine are not part of the builder module, so they are parameters of the
  model:
  \<^item> \<open>DEBUG\<close>: the flag of the utility module that selects the synthesis strategy;
  \<^item> \<open>global_object\<close>: the object that the identifier \<open>global\<close> denotes;
  \<^item> \<open>js_eval source protocol invokee\<close>: what \<open>eval\<close> makes of a source text that is outside
    the fragment of the language that \<open>eval_suspendable\<close> below reads itself, in the scope
    of the given protocol and invokee;
  \<^item> \<open>js_call source protocol invokee\<close>: what a call of the evaluated function does when
    the function or one of its parameters has the name of an identifier of the template;
  \<^item> \<open>syntax_message source\<close>: the engine's wording of the SyntaxError for a source text;
  \<^item> \<open>acquireCoro protocol body\<close>: \<open>pipeline.acquireCoro\<close>, which takes a coroutine from the
    pool (or allocates one) for the protocol and the body, and returns it;
  \<^item> \<open>call_fn f args\<close>: calling the function value \<open>f\<close> (here: \<open>protocol.invoke\<close>);
  \<^item> \<open>call_factory f options baseProtocol\<close>: calling the protocol factory \<open>f\<close> with the
    options object and the base protocol object. A factory is user code: it is handed the
    objects themselves and may write to them.

  Objects that are shared have identity. They live in a heap, a list of objects in which
  the address of an object is its index; the values stored in properties are values.
\<close>

type_synonym heap = "obj list"

record 'p host =
  DEBUG :: bool
  global_object :: val
  js_eval :: "string \<Rightarrow> obj \<Rightarrow> func \<Rightarrow> ('p suspendable) outcome"
  js_call :: "string \<Rightarrow> obj \<Rightarrow> func \<Rightarrow> val option \<Rightarrow> val list \<Rightarrow> 'p \<Rightarrow> val outcome \<times> 'p"
  syntax_message :: "string \<Rightarrow> string"
  acquireCoro :: "obj \<Rightarrow> body \<Rightarrow> 'p \<Rightarrow> val \<times> 'p"
  call_fn :: "func \<Rightarrow> val list \<Rightarrow> 'p \<Rightarrow> val outcome \<times> 'p"
  call_factory :: "func \<Rightarrow> nat \<Rightarrow> nat \<Rightarrow> heap \<Rightarrow> val outcome \<times> heap"

section \<open>Suspendable functions\<close>


text \<open>
  \<open>protocol.invoke\<close>, for reading its \<open>length\<close> and its parameter names. A protocol whose
  \<open>invoke\<close> is not a function is outside the Protocol type of the sources; reading
  \<open>length\<close> of \<open>undefined\<close> throws a TypeError, and the model throws it for every
  \<open>invoke\<close> that is not a function.
\<close>

definition protocol_invoke :: "obj \<Rightarrow> func outcome" where
  "protocol_invoke protocol =
     (case fmlookup protocol ''invoke'' of
        Some (Fn f) \<Rightarrow> Inr f
      | _ \<Rightarrow> Inl (Error ''TypeError'' ''protocol.invoke is not a function''))"

text \<open>\<open>var invokerArgCount = protocol.invoke.length - 1;\<close>\<close>

definition invokerArgCount_of :: "func \<Rightarrow> int" where
  "invokerArgCount_of invoke = int (length (fparams invoke)) - 1"

text \<open>
  The first loop of the suspendable function,
  \<open>for (var i = 0; i < invokeeArgCount; ++i) invokeeArgs[i] = arguments[i];\<close>
  It returns the array and the final value of \<open>i\<close>, which the second loop continues from.
\<close>

function copy_invokee_args :: "val list \<Rightarrow> int \<Rightarrow> nat \<Rightarrow> val list \<Rightarrow> val list \<times> nat" where
  "copy_invokee_args arguments invokeeArgCount i invokeeArgs =
     (if int i < invokeeArgCount
      then copy_invokee_args arguments invokeeArgCount (Suc i)
             (js_set invokeeArgs i (arg_at arguments i))
      else (invokeeArgs, i))"
  by pat_completeness auto
termination
  by (relation "measure (\<lambda>(a, n, i, xs). nat (n - int i))") auto

text \<open>
  The second loop,
  \<open>for (var j = 1; j <= invokerArgCount; ++i, ++j) invokerArgs[j] = arguments[i];\<close>
\<close>

function copy_invoker_args :: "val list \<Rightarrow> int \<Rightarrow> nat \<Rightarrow> nat \<Rightarrow> val list \<Rightarrow> val list" where
  "copy_invoker_args arguments invokerArgCount i j invokerArgs =
     (if int j \<le> invokerArgCount
      then copy_invoker_args arguments invokerArgCount (Suc i) (Suc j)
             (js_set invokerArgs j (arg_at arguments i))
      else invokerArgs)"
  by pat_completeness auto
termination
  by (relation "measure (\<lambda>(a, n, i, j, xs). nat (n + 1 - int j))") auto

text \<open>
  The function returned by \<open>createSuspendableFunctionSlow\<close>: both arrays are allocated,
  the arguments are distributed, a coroutine is acquired for the body \<open>b1\<close>, and the
  invoker is applied to the coroutine followed by its own arguments.
\<close>

definition suspendable_slow ::
  "'p host \<Rightarrow> obj \<Rightarrow> func \<Rightarrow> func \<Rightarrow> int \<Rightarrow> val option \<Rightarrow> val list \<Rightarrow> 'p \<Rightarrow> val outcome \<times> 'p"
where
  "suspendable_slow h protocol invoke invokee invokerArgCount self arguments p =
     (let invokeeArgCount = int (length arguments) - invokerArgCount in
      case new_Array invokeeArgCount of
        Inl e \<Rightarrow> (Inl e, p)
      | Inr invokeeArgs0 \<Rightarrow>
     (case new_Array (invokerArgCount + 1) of
        Inl e \<Rightarrow> (Inl e, p)
      | Inr invokerArgs0 \<Rightarrow>
     (let (invokeeArgs, i) = copy_invokee_args arguments invokeeArgCount 0 invokeeArgs0;
          invokerArgs = copy_invoker_args arguments invokerArgCount i 1 invokerArgs0;
          body = B1 invokee self invokeeArgs;
          (co, p') = acquireCoro h protocol body p
      in call_fn h invoke (js_set invokerArgs 0 co) p')))"

definition createSuspendableFunctionSlow ::
  "'p host \<Rightarrow> obj \<Rightarrow> func \<Rightarrow> obj \<Rightarrow> ('p suspendable) outcome"
where
  "createSuspendableFunctionSlow h protocol invokee options =
     (case protocol_invoke protocol of
        Inl e \<Rightarrow> Inl e
      | Inr invoke \<Rightarrow>
          Inr \<lparr> sf_name = ''suspendable'', sf_params = [''$ARGS''],
                sf_call = suspendable_slow h protocol invoke invokee (invokerArgCount_of invoke) \<rparr>)"

text \<open>
  The check of the specialised strategy,
  \<open>for (i ...) { if (invokerParamNames.indexOf(paramName) === -1) continue; throw ... }\<close>:
  the first invokee parameter that is also an invoker parameter, if any.
\<close>

fun find_conflict :: "string list \<Rightarrow> string list \<Rightarrow> string option" where
  "find_conflict [] invokerParamNames = None"
| "find_conflict (paramName # rest) invokerParamNames =
     (if paramName \<notin> set invokerParamNames then find_conflict rest invokerParamNames
      else Some paramName)"

definition conflict_error :: "string \<Rightarrow> val" where
  "conflict_error paramName =
     Error ''Error'' (''async builder: invoker and invokee both have a parameter named ''
                      @ [CHR 0x27] @ paramName @ [CHR 0x27])"

subsection \<open>The source text of the specialised function\<close>

text \<open>
  \<open>String.prototype.replace(pattern, replacement)\<close> with a string pattern: the first
  occurrence of the pattern, if there is one, is replaced. In the replacement, \<open>$$\<close>
  stands for a dollar sign, \<open>$&\<close> for the matched text, and \<open>$\<close> followed by a backquote or
  a quote for the text before or after the match; every other character stands for
  itself. \<open>find_first pat s\<close> splits \<open>s\<close> around the first occurrence of \<open>pat\<close>.
\<close>

fun find_first :: "string \<Rightarrow> string \<Rightarrow> (string \<times> string) option" where
  "find_first pat [] = (if pat = [] then Some ([], []) else None)"
| "find_first pat (c # s) =
     (if take (length pat) (c # s) = pat then Some ([], drop (length pat) (c # s))
      else map_option (\<lambda>(u, w). (c # u, w)) (find_first pat s))"

fun expand_replacement :: "string \<Rightarrow> string \<Rightarrow> string \<Rightarrow> string \<Rightarrow> string" where
  "expand_replacement (c # d # r) matched pre post =
     (if c = CHR ''$'' \<and> d = CHR ''$'' then CHR ''$'' # expand_replacement r matched pre post
      else if c = CHR ''$'' \<and> d = CHR ''&'' then matched @ expand_replacement r matched pre post
      else if c = CHR ''$'' \<and> d = CHR 0x60 then pre @ expand_replacement r matched pre post
      else if c = CHR ''$'' \<and> d = CHR 0x27 then post @ expand_replacement r matched pre post
      else c # expand_replacement (d # r) matched pre post)"
| "expand_replacement r matched pre post = r"

definition js_replace :: "string \<Rightarrow> string \<Rightarrow> string \<Rightarrow> string" where
  "js_replace pat replacement s =
     (case find_first pat s of
        None \<Rightarrow> s
      | Some (u, w) \<Rightarrow> u @ expand_replacement replacement pat u w @ w)"

text \<open>\<open>names.join(', ')\<close>, and \<open>'' + n\<close> for a length \<open>n\<close>.\<close>

fun join :: "string list \<Rightarrow> string" where
  "join [] = []"
| "join [x] = x"
| "join (x # y # ys) = x @ '', '' @ join (y # ys)"

definition digit_char :: "nat \<Rightarrow> char" where
  "digit_char n = ''0123456789'' ! n"

fun show_nat :: "nat \<Rightarrow> string" where
  "show_nat n = (if n < 10 then [digit_char n] else show_nat (n div 10) @ [digit_char (n mod 10)])"

declare show_nat.simps [simp del]

text \<open>
  \<open>$SUSPENDABLE_TEMPLATE.toString()\<close>: the text of the template function as it stands in
  the module, from \<open>function\<close> to the closing brace. \<open>template_t0\<close> to \<open>template_t5\<close> are
  the pieces of its body between the placeholders.
\<close>

definition nl :: string where
  "nl = [CHR 0x0A]"

definition template_t0 :: string where
  "template_t0 = nl @ ''        // Code for the fast path will be injected here.'' @ nl @
                 ''        var self = this, body = ''"

definition template_t1 :: string where
  "template_t1 = '';'' @ nl @ ''        if (arguments.length === ''"

definition template_t2 :: string where
  "template_t2 = '') {'' @ nl @ ''            ''"

definition template_t3 :: string where
  "template_t3 = '';'' @ nl @ ''        }'' @ nl @ nl @
     ''        // Distribute arguments between the invoker and invokee functions, according to their arities.'' @ nl @
     ''        var invokeeArgCount = arguments.length - invokerArgCount, invokeeArgs = new Array(invokeeArgCount);'' @ nl @
     ''        for (var i = 0; i < invokeeArgCount; ++i)'' @ nl @
     ''            invokeeArgs[i] = arguments[i];'' @ nl @
     ''        ''"

definition template_t4 :: string where
  "template_t4 = '';'' @ nl @ nl @
     ''        // Create a coroutine instance to hold context information for this call.'' @ nl @
     ''        body = function b4() {'' @ nl @
     ''            return invokee.apply(self, invokeeArgs);'' @ nl @
     ''        };'' @ nl @
     ''        var co = pipeline.acquireCoro(protocol, body);'' @ nl @ nl @
     ''        // Pass execution control over to the invoker.'' @ nl @
     ''        ''"

definition template_t5 :: string where
  "template_t5 = '';'' @ nl @ ''    }''"

definition template_body :: "string \<Rightarrow> string \<Rightarrow> string \<Rightarrow> string \<Rightarrow> string \<Rightarrow> string" where
  "template_body b a f s c =
     template_t0 @ b @ template_t1 @ a @ template_t2 @ f @ template_t3 @ s @ template_t4 @ c @
     template_t5"

definition suspendableTemplateSource :: string where
  "suspendableTemplateSource =
     ''function $SUSPENDABLE_TEMPLATE($ARGS) {'' @
     template_body ''$BODYEXPR'' ''$ARGCOUNT'' ''$FASTPATH'' ''$SETUP_INVOKER_ARGS'' ''$CALL_INVOKER''"

text \<open>The texts that are substituted for the placeholders, named after the variables.\<close>

definition BODYEXPR :: "string list \<Rightarrow> string" where
  "BODYEXPR invokeeParamNames =
     (let invokeeArgs = join invokeeParamNames;
          bodyNoThis = (if length invokeeParamNames = 0 then ''invokee''
                        else ''function b2() { return invokee('' @ invokeeArgs @ ''); }'');
          bodyWithThis = '' function b3() { return invokee.call(self'' @
                         (if length invokeeParamNames > 0 then '', '' @ invokeeArgs else []) @
                         ''); }''
      in ''(!this || this === global) ? '' @ bodyNoThis @ '' : '' @ bodyWithThis)"

definition SETUP_INVOKER_ARGS :: "int \<Rightarrow> string" where
  "SETUP_INVOKER_ARGS invokerArgCount =
     (if invokerArgCount = 0 then []
      else ''var invokerArgs = new Array(invokerArgCount + 1); '' @
           ''for (var j = 1; j <= invokerArgCount; ++i, ++j) invokerArgs[j] = arguments[i];'')"

definition CALL_INVOKER :: "int \<Rightarrow> string" where
  "CALL_INVOKER invokerArgCount =
     (if invokerArgCount = 0 then ''return protocol.invoke(co);''
      else ''invokerArgs[0] = co; return protocol.invoke.apply(null, invokerArgs);'')"

definition FASTPATH :: "string list \<Rightarrow> string" where
  "FASTPATH invokerParamNames =
     ''var co = pipeline.acquireCoro(protocol, body); '' @ ''return protocol.invoke(co'' @
     (if length invokerParamNames \<noteq> 0 then '', '' @ join invokerParamNames else []) @ '');''"

text \<open>The chain of substitutions that gives the source of the function, in its order.\<close>

definition suspendable_source :: "string \<Rightarrow> string list \<Rightarrow> string list \<Rightarrow> int \<Rightarrow> string" where
  "suspendable_source name invokeeParamNames invokerParamNames invokerArgCount =
     (let allParamNames = invokeeParamNames @ invokerParamNames in
      js_replace ''$CALL_INVOKER'' (CALL_INVOKER invokerArgCount)
     (js_replace ''$SETUP_INVOKER_ARGS'' (SETUP_INVOKER_ARGS invokerArgCount)
     (js_replace ''$FASTPATH'' (FASTPATH invokerParamNames)
     (js_replace ''$ARGCOUNT'' (show_nat (length allParamNames))
     (js_replace ''$BODYEXPR'' (BODYEXPR invokeeParamNames)
     (js_replace ''$ARGS'' (join allParamNames)
     (js_replace ''$SUSPENDABLE_TEMPLATE'' (''suspendable_'' @ name)
        suspendableTemplateSource)))))))"

subsection \<open>Reading the source text\<close>

text \<open>
  The head of a function expression, \<open>function name(p1, p2, ...) {\<close>, over identifiers
  of letters, digits, \<open>$\<close> and \<open>_\<close>. \<open>parse_function_header\<close> returns the name (empty for
  none), the parameters and the text after the opening brace, or \<open>None\<close> when the text
  does not start with such a head.
\<close>

definition is_space :: "char \<Rightarrow> bool" where
  "is_space c = (c \<in> set [CHR '' '', CHR 0x09, CHR 0x0A, CHR 0x0D])"

definition is_ident_start :: "char \<Rightarrow> bool" where
  "is_ident_start c =
     (c \<in> set ''abcdefghijklmnopqrstuvwxyzABCDEFGHIJKLMNOPQRSTUVWXYZ$_'')"

definition is_ident_part :: "char \<Rightarrow> bool" where
  "is_ident_part c = (is_ident_start c \<or> c \<in> set ''0123456789'')"

definition skip_space :: "string \<Rightarrow> string" where
  "skip_space s = dropWhile is_space s"

function parse_params :: "string \<Rightarrow> (string list \<times> string) option" where
  "parse_params s =
     (let s1 = skip_space s;
          p = takeWhile is_ident_part s1;
          s2 = skip_space (dropWhile is_ident_part s1)
      in if p = [] \<or> \<not> is_ident_start (hd p) then None
         else (case s2 of
                 [] \<Rightarrow> None
               | c # s3 \<Rightarrow>
                   if c = CHR '','' then map_option (\<lambda>(ps, r). (p # ps, r)) (parse_params s3)
                   else if c = CHR '')'' then Some ([p], s3)
                   else None))"
  by pat_completeness auto
termination
proof (relation "measure length", goal_cases)
  case 1
  show ?case by simp
next
  case (2 s s1 p s2 c s3)
  have "length (skip_space (dropWhile is_ident_part (skip_space s)))
          \<le> length (dropWhile is_ident_part (skip_space s))"
    unfolding skip_space_def by (rule length_dropWhile_le)
  also have "\<dots> \<le> length (skip_space s)" by (rule length_dropWhile_le)
  also have "\<dots> \<le> length s" unfolding skip_space_def by (rule length_dropWhile_le)
  finally have "length s2 \<le> length s" using 2 by simp
  moreover have "length s2 = Suc (length s3)" using 2 by (metis length_Cons)
  ultimately show ?case by simp
qed

declare parse_params.simps [simp del]

definition parse_function_header :: "string \<Rightarrow> (string \<times> string list \<times> string) option" where
  "parse_function_header s =
     (if take 9 s \<noteq> ''function '' then None
      else
        (let s1 = skip_space (drop 9 s);
             name = takeWhile is_ident_part s1;
             s2 = skip_space (dropWhile is_ident_part s1)
         in if name \<noteq> [] \<and> \<not> is_ident_start (hd name) then None
            else (case s2 of
                    [] \<Rightarrow> None
                  | c # s3 \<Rightarrow>
                      if c \<noteq> CHR ''('' then None
                      else (case (case skip_space s3 of
                                    [] \<Rightarrow> None
                                  | d # s4 \<Rightarrow> if d = CHR '')'' then Some ([], s4)
                                             else parse_params s3) of
                              None \<Rightarrow> None
                            | Some (params, s5) \<Rightarrow>
                                (case skip_space s5 of
                                   [] \<Rightarrow> None
                                 | e # rest \<Rightarrow>
                                     if e = CHR ''{'' then Some (name, params, rest)
                                     else None)))))"

text \<open>
  The function is evaluated by a direct \<open>eval\<close> inside a function that starts with
  \<open>"use strict"\<close>, so its source is strict code. There a reserved word (those of strict
  code included), \<open>eval\<close> or \<open>arguments\<close> as the name of the function or of a parameter, and
  a parameter name that occurs twice, are SyntaxErrors.
\<close>

definition reserved_words :: "string list" where
  "reserved_words =
     [''break'', ''case'', ''catch'', ''continue'', ''debugger'', ''default'', ''delete'', ''do'',
      ''else'', ''finally'', ''for'', ''function'', ''if'', ''in'', ''instanceof'', ''new'',
      ''return'', ''switch'', ''this'', ''throw'', ''try'', ''typeof'', ''var'', ''void'',
      ''while'', ''with'', ''class'', ''const'', ''enum'', ''export'', ''extends'', ''import'',
      ''super'', ''implements'', ''interface'', ''let'', ''package'', ''private'', ''protected'',
      ''public'', ''static'', ''yield'', ''null'', ''true'', ''false'']"

definition strict_mode_violation :: "string \<Rightarrow> string list \<Rightarrow> bool" where
  "strict_mode_violation name params =
     (\<not> distinct params \<or>
      \<not> list_all (\<lambda>n. n \<notin> set reserved_words \<and> n \<noteq> ''eval'' \<and> n \<noteq> ''arguments'')
          (name # params))"

definition syntax_error :: "'p host \<Rightarrow> string \<Rightarrow> val" where
  "syntax_error h source = Error ''SyntaxError'' (syntax_message h source)"

text \<open>
  The identifiers that the body of the template declares or refers to. A parameter, or
  the function itself, with one of these names would capture them.
\<close>

definition template_identifiers :: "string list" where
  "template_identifiers =
     [''self'', ''body'', ''co'', ''i'', ''j'', ''invokee'', ''protocol'', ''pipeline'',
      ''global'', ''Array'', ''invokerArgCount'', ''invokeeArgCount'', ''invokeeArgs'',
      ''invokerArgs'', ''b2'', ''b3'', ''b4'']"

subsection \<open>The specialised function\<close>

text \<open>
  \<open>this\<close> in the function, which is strict code: the calling context as it is, and
  \<open>undefined\<close> for a call without one.
\<close>

definition this_value :: "val option \<Rightarrow> val" where
  "this_value self = (case self of None \<Rightarrow> Undefined | Some v \<Rightarrow> v)"

text \<open>
  The value of a parameter in the body: the argument at the position of the name in the
  parameter list of the function (\<open>undefined\<close> past the arguments of the call). The body
  assigns to no parameter.
\<close>

fun position :: "string \<Rightarrow> string list \<Rightarrow> nat" where
  "position name [] = 0"
| "position name (x # xs) = (if x = name then 0 else Suc (position name xs))"

definition param_value :: "string list \<Rightarrow> val list \<Rightarrow> string \<Rightarrow> val" where
  "param_value params arguments name = arg_at arguments (position name params)"

text \<open>
  What a call of the function does whose source is the template with the texts above in
  the place of the placeholders, and whose parameters are \<open>params\<close>: distinct, not
  captured, and with every name of the two lists among them.

  \<open>$BODYEXPR\<close> chooses the body by \<open>this\<close>: without a context (\<open>this\<close> is falsy or the
  global object) the invokee itself or \<open>b2\<close>, with one \<open>b3\<close>. With exactly \<open>$ARGCOUNT\<close>
  arguments the fast path acquires the coroutine and calls the invoker with the invoker's
  named parameters. Every other call distributes the arguments as the generic function
  does, with \<open>$SETUP_INVOKER_ARGS\<close> and \<open>$CALL_INVOKER\<close> specialised for an invoker
  without parameters of its own.
\<close>

definition suspendable_fast ::
  "'p host \<Rightarrow> obj \<Rightarrow> func \<Rightarrow> func \<Rightarrow> int \<Rightarrow> string list \<Rightarrow> string list \<Rightarrow> string list \<Rightarrow>
     val option \<Rightarrow> val list \<Rightarrow> 'p \<Rightarrow> val outcome \<times> 'p"
where
  "suspendable_fast h protocol invoke invokee invokerArgCount params
       invokeeParamNames invokerParamNames self arguments p =
     (let this_val = this_value self;
          invokeeArgs = map (param_value params arguments) invokeeParamNames;
          ARGCOUNT = length (invokeeParamNames @ invokerParamNames);
          body0 = (if \<not> truthy this_val \<or> this_val = global_object h
                   then (if length invokeeParamNames = 0 then BInvokee invokee
                         else B2 invokee invokeeArgs)
                   else B3 invokee self invokeeArgs)
      in
      if length arguments = ARGCOUNT then
        (let (co, p') = acquireCoro h protocol body0 p
         in call_fn h invoke (co # map (param_value params arguments) invokerParamNames) p')
      else
        (let invokeeArgCount = int (length arguments) - invokerArgCount in
         case new_Array invokeeArgCount of
           Inl e \<Rightarrow> (Inl e, p)
         | Inr invokeeArgs0 \<Rightarrow>
        (let (invokeeArgs, i) = copy_invokee_args arguments invokeeArgCount 0 invokeeArgs0 in
         if invokerArgCount = 0 then
           (let body = B4 invokee self invokeeArgs;
                (co, p') = acquireCoro h protocol body p
            in call_fn h invoke [co] p')
         else
           (case new_Array (invokerArgCount + 1) of
              Inl e \<Rightarrow> (Inl e, p)
            | Inr invokerArgs0 \<Rightarrow>
           (let invokerArgs = copy_invoker_args arguments invokerArgCount i 1 invokerArgs0;
                body = B4 invokee self invokeeArgs;
                (co, p') = acquireCoro h protocol body p
            in call_fn h invoke (js_set invokerArgs 0 co) p')))))"

text \<open>
  \<open>eval('result = ' + source)\<close>. A source that starts with a function head is a
  SyntaxError when the head breaks a rule of strict code. When the rest of the source is
  the body of the template with the intended texts, and every name that these texts use
  is a parameter of the head, the result is a function with the name and the parameters
  of the head. A call of it is described by \<open>suspendable_fast\<close> when neither the
  function nor a parameter captures an identifier of the template, and is left to the
  engine otherwise. Every other source is left to the engine.
\<close>

definition eval_suspendable ::
  "'p host \<Rightarrow> obj \<Rightarrow> func \<Rightarrow> func \<Rightarrow> int \<Rightarrow> string list \<Rightarrow> string list \<Rightarrow> string \<Rightarrow>
     ('p suspendable) outcome"
where
  "eval_suspendable h protocol invoke invokee invokerArgCount invokeeParamNames invokerParamNames
       source =
     (case parse_function_header source of
        None \<Rightarrow> js_eval h source protocol invokee
      | Some (name, params, rest) \<Rightarrow>
          if strict_mode_violation name params then Inl (syntax_error h source)
          else if rest = template_body (BODYEXPR invokeeParamNames)
                           (show_nat (length (invokeeParamNames @ invokerParamNames)))
                           (FASTPATH invokerParamNames)
                           (SETUP_INVOKER_ARGS invokerArgCount)
                           (CALL_INVOKER invokerArgCount) \<and>
                  list_all (\<lambda>n. n \<in> set params) (invokeeParamNames @ invokerParamNames)
          then Inr \<lparr> sf_name = name, sf_params = params,
                     sf_call =
                       (if list_all (\<lambda>n. n \<notin> set template_identifiers) (name # params)
                        then suspendable_fast h protocol invoke invokee invokerArgCount params
                               invokeeParamNames invokerParamNames
                        else js_call h source protocol invokee) \<rparr>
          else js_eval h source protocol invokee)"

text \<open>
  \<open>createSuspendableFunctionFast\<close>: the check for a shared parameter name comes before the
  substitutions and the \<open>eval\<close>.
\<close>

definition createSuspendableFunctionFast ::
  "'p host \<Rightarrow> obj \<Rightarrow> func \<Rightarrow> obj \<Rightarrow> ('p suspendable) outcome"
where
  "createSuspendableFunctionFast h protocol invokee options =
     (case protocol_invoke protocol of
        Inl e \<Rightarrow> Inl e
      | Inr invoke \<Rightarrow>
          (let invokerArgCount = invokerArgCount_of invoke;
               invokerParamNames = drop 1 (getParamNames invoke);
               invokeeParamNames = getParamNames invokee
           in case find_conflict invokeeParamNames invokerParamNames of
                Some paramName \<Rightarrow> Inl (conflict_error paramName)
              | None \<Rightarrow>
                  eval_suspendable h protocol invoke invokee invokerArgCount
                    invokeeParamNames invokerParamNames
                    (suspendable_source (fname invokee) invokeeParamNames invokerParamNames
                       invokerArgCount)))"

text \<open>\<open>createSuspendableFunction = _.DEBUG ? createSuspendableFunctionSlow : createSuspendableFunctionFast\<close>\<close>

definition createSuspendableFunction ::
  "'p host \<Rightarrow> obj \<Rightarrow> func \<Rightarrow> obj \<Rightarrow> ('p suspendable) outcome"
where
  "createSuspendableFunction h =
     (if DEBUG h then createSuspendableFunctionSlow h else createSuspendableFunctionFast h)"

text \<open>
  The two steps that end every call of a suspendable function: a coroutine is acquired for
  the protocol and the body, and the invoker is called with the coroutine followed by the
  invoker's arguments; its outcome is the outcome of the call.
\<close>

definition invoke_with ::
  "'p host \<Rightarrow> obj \<Rightarrow> func \<Rightarrow> body \<Rightarrow> val list \<Rightarrow> 'p \<Rightarrow> val outcome \<times> 'p"
where
  "invoke_with h protocol invoke body invokerArgs p =
     (let (co, p') = acquireCoro h protocol body p
      in call_fn h invoke (co # invokerArgs) p')"







section \<open>Builders\<close>

text \<open>
  Modelled from the spec: \<open>_.mergeProps\<close> lives in the utility module, which is not among
  the sources. The spec describes the merge as shallow: later keys overwrite earlier ones,
  and nested maps are merged one level. \<open>mergeProps target sources\<close> copies the
  properties of each source object, in order, into the target and returns it; a source
  that is not an object contributes nothing.
\<close>

definition merge_value :: "val option \<Rightarrow> val \<Rightarrow> val" where
  "merge_value old new =
     (case (old, new) of
        (Some (Obj a), Obj b) \<Rightarrow> Obj (a ++\<^sub>f b)
      | _ \<Rightarrow> new)"

definition merge_source :: "obj \<Rightarrow> val \<Rightarrow> obj" where
  "merge_source target source =
     (case source of
        Obj s \<Rightarrow> target ++\<^sub>f fmmap_keys (\<lambda>key v. merge_value (fmlookup target key) v) s
      | _ \<Rightarrow> target)"

definition mergeProps :: "obj \<Rightarrow> val list \<Rightarrow> obj" where
  "mergeProps target sources = foldl merge_source target sources"

text \<open>
  Modelled from the spec: \<open>_.mergeProps(target, source, ...)\<close> on objects of the heap. It
  writes the merged properties to its target and to no other object, and the sources are
  read when the merge happens.
\<close>

definition mergeProps_at :: "nat \<Rightarrow> val list \<Rightarrow> heap \<Rightarrow> heap" where
  "mergeProps_at target sources heap = heap[target := mergeProps (heap ! target) sources]"

text \<open>The object literal \<open>{}\<close>: a new empty object at the next address.\<close>

definition new_object :: "heap \<Rightarrow> nat \<times> heap" where
  "new_object heap = (length heap, heap @ [fmempty])"

text \<open>
  A builder function closes over \<open>protocol\<close> and \<open>options\<close>, and its \<open>derive\<close> method
  over these two and \<open>protocolFactory\<close> and \<open>baseProtocol\<close>. \<open>builder_ref\<close> holds the
  addresses of the three objects and the factory; \<open>builder\<close> holds what a builder amounts
  to at one moment, the properties of the three objects as they are in the heap then.
\<close>

record builder_ref =
  protocol_ref :: nat
  options_ref :: nat
  protocolFactory_of :: func
  baseProtocol_ref :: nat

record builder =
  b_protocol :: obj
  b_options :: obj
  b_protocolFactory :: func
  b_baseProtocol :: obj

definition builder_at :: "heap \<Rightarrow> builder_ref \<Rightarrow> builder" where
  "builder_at heap r =
     \<lparr> b_protocol = heap ! protocol_ref r,
       b_options = heap ! options_ref r,
       b_protocolFactory = protocolFactory_of r,
       b_baseProtocol = heap ! baseProtocol_ref r \<rparr>"

definition assertion_error :: "string \<Rightarrow> val" where
  "assertion_error message = Error ''AssertionError'' message"

text \<open>
  \<open>createAsyncBuilder\<close>: the protocol is a new object into which the base protocol and
  then what the factory returns for the options and the base protocol are merged. The
  object literal is evaluated before the factory is called, and the base protocol is read
  by the merge, after the factory has run. A factory that throws makes the construction
  throw.
\<close>

definition createAsyncBuilder ::
  "'p host \<Rightarrow> func \<Rightarrow> nat \<Rightarrow> nat \<Rightarrow> heap \<Rightarrow> builder_ref outcome \<times> heap"
where
  "createAsyncBuilder h protocolFactory options baseProtocol heap =
     (let (protocol, heap1) = new_object heap in
      case call_factory h protocolFactory options baseProtocol heap1 of
        (Inl e, heap2) \<Rightarrow> (Inl e, heap2)
      | (Inr overrides, heap2) \<Rightarrow>
          (Inr \<lparr> protocol_ref = protocol,
                 options_ref = options,
                 protocolFactory_of = protocolFactory,
                 baseProtocol_ref = baseProtocol \<rparr>,
           mergeProps_at protocol [Obj (heap2 ! baseProtocol), overrides] heap2))"

text \<open>
  The builder function \<open>asyncBuilder(invokee)\<close>: the lock is written first, then the
  arguments are validated, then the suspendable function is created.
\<close>

definition builder_call ::
  "'p host \<Rightarrow> builder \<Rightarrow> val list \<Rightarrow> 'p pipeline \<Rightarrow> ('p suspendable) outcome \<times> 'p pipeline"
where
  "builder_call h b arguments pl =
     (let pl' = pl\<lparr>isLocked := True\<rparr> in
      if length arguments \<noteq> 1
      then (Inl (assertion_error ''async builder: expected a single argument''), pl')
      else
        (case arg_at arguments 0 of
           Fn invokee \<Rightarrow> (createSuspendableFunction h (b_protocol b) invokee (b_options b), pl')
         | _ \<Rightarrow> (Inl (assertion_error ''async builder: expected argument to be a function''), pl')))"

text \<open>
  \<open>createDeriveMethod(protocol, protocolFactory, options, baseProtocol)\<close> returns the
  \<open>derive\<close> method; the model applies it to the argument list.
\<close>

definition createDeriveMethod ::
  "'p host \<Rightarrow> nat \<Rightarrow> func \<Rightarrow> nat \<Rightarrow> nat \<Rightarrow> val list \<Rightarrow> heap \<Rightarrow> builder_ref outcome \<times> heap"
where
  "createDeriveMethod h protocol protocolFactory options baseProtocol arguments heap =
     (let len = length arguments in
      if \<not> (len > 0)
      then (Inl (assertion_error ''derive(): expected at least one argument''), heap)
      else
        (let arg0 = arg_at arguments 0;
             hasProtocolFactory = isFunction arg0
         in
         if \<not> (hasProtocolFactory \<or> len = 1)
         then (Inl (assertion_error ''derive(): invalid argument combination''), heap)
         else
           (let (opts, heap1) = new_object heap;
                heap2 = (if \<not> hasProtocolFactory
                         then mergeProps_at opts [Obj (heap1 ! options)] heap1
                         else heap1);
                heap3 = mergeProps_at opts
                          [if hasProtocolFactory then arg_at arguments 1 else arg0] heap2;
                newProtocolFactory = (case arg0 of Fn f \<Rightarrow> f | _ \<Rightarrow> protocolFactory);
                newBaseProtocol = (if hasProtocolFactory then protocol else baseProtocol)
            in createAsyncBuilder h newProtocolFactory opts newBaseProtocol heap3)))"

definition derive ::
  "'p host \<Rightarrow> builder_ref \<Rightarrow> val list \<Rightarrow> heap \<Rightarrow> builder_ref outcome \<times> heap"
where
  "derive h b =
     createDeriveMethod h (protocol_ref b) (protocolFactory_of b) (options_ref b)
       (baseProtocol_ref b)"

text \<open>
  \<open>extends heap heap'\<close>: every object of \<open>heap\<close> is in \<open>heap'\<close> as it was; objects may have
  been added. \<open>in_heap\<close>: the three objects of a builder exist. A factory that
  \<open>only_allocates\<close> writes to no object that exists when it is called.
\<close>

definition extends :: "heap \<Rightarrow> heap \<Rightarrow> bool" where
  "extends heap heap' = (take (length heap) heap' = heap)"



text \<open>
  The bootstrap builder of the module: the factory \<open>_.empty\<close>, no options, and a base
  protocol whose four operations throw.
\<close>

definition empty_factory :: func where
  "empty_factory = Func ''empty'' [] 0"

definition bootstrap_protocol :: obj where
  "bootstrap_protocol =
     fmupd ''invoke'' (Fn (Func [] [''co''] 1))
    (fmupd ''return'' (Fn (Func [] [''ctx'', ''result''] 2))
    (fmupd ''throw'' (Fn (Func [] [''ctx'', ''error''] 3))
    (fmupd ''yield'' (Fn (Func [] [''ctx'', ''value''] 4)) fmempty)))"

definition asyncBuilder :: "'p host \<Rightarrow> builder_ref outcome \<times> heap" where
  "asyncBuilder h =
     (let (options, heap1) = new_object [];
          baseProtocol = length heap1;
          heap2 = heap1 @ [bootstrap_protocol]
      in createAsyncBuilder h empty_factory options baseProtocol heap2)"

text \<open>
  Modelled from the spec: the function that registers a new default base protocol for the
  pipeline (\<open>asyncawait.use\<close> in the comment of the builder function) is not among the
  sources. By the spec, once the pipeline is locked the attempt must fail; before that
  the protocol is registered.
\<close>

definition use_locked_error :: val where
  "use_locked_error =
     Error ''Error'' ''use: cannot alter the protocol after async(...) has been called''"

definition use :: "val \<Rightarrow> 'p pipeline \<Rightarrow> val outcome \<times> 'p pipeline" where
  "use newProtocol pl =
     (if isLocked pl
      then (Inl use_locked_error, pl)
      else (Inr Undefined, pl\<lparr>registered := registered pl @ [newProtocol]\<rparr>))"

text \<open>A call of a suspendable function works on the pool of the pipeline.\<close>

definition call_suspendable ::
  "'p suspendable \<Rightarrow> val option \<Rightarrow> val list \<Rightarrow> 'p pipeline \<Rightarrow> val outcome \<times> 'p pipeline"
where
  "call_suspendable f self arguments pl =
     (let (r, p') = sf_call f self arguments (pool pl) in (r, pl\<lparr>pool := p'\<rparr>))"

text \<open>
  What a program can do with a pipeline: call a builder, call a suspendable function, try
  to register a default protocol. \<open>run_ops\<close> performs a sequence of them.
\<close>

datatype 'p op =
    CallBuilder builder "val list"
  | CallSuspendable "'p suspendable" "val option" "val list"
  | Use val

fun exec_op :: "'p host \<Rightarrow> 'p op \<Rightarrow> 'p pipeline \<Rightarrow> 'p pipeline" where
  "exec_op h (CallBuilder b arguments) pl = snd (builder_call h b arguments pl)"
| "exec_op h (CallSuspendable f self arguments) pl = snd (call_suspendable f self arguments pl)"
| "exec_op h (Use newProtocol) pl = snd (use newProtocol pl)"

fun run_ops :: "'p host \<Rightarrow> 'p op list \<Rightarrow> 'p pipeline \<Rightarrow> 'p pipeline" where
  "run_ops h [] pl = pl"
| "run_ops h (x # xs) pl = run_ops h xs (exec_op h x pl)"

section \<open>The iterable protocol\<close>

text \<open>
  Reading a property of a value, for \<open>item.done\<close> and \<open>item.value\<close>: reading a property of
  \<open>undefined\<close> or \<open>null\<close> throws a TypeError; a property that an object does not have is
  \<open>undefined\<close>.
\<close>

fun get_prop :: "val \<Rightarrow> string \<Rightarrow> val outcome" where
  "get_prop Undefined key = Inl (Error ''TypeError'' (''Cannot read property '' @ key @ '' of undefined''))"
| "get_prop Null key = Inl (Error ''TypeError'' (''Cannot read property '' @ key @ '' of null''))"
| "get_prop (IterResult d v) key =
     Inr (if key = ''done'' then Bool d else if key = ''value'' then v else Undefined)"
| "get_prop (Obj m) key = Inr (case fmlookup m key of Some v \<Rightarrow> v | None \<Rightarrow> Undefined)"
| "get_prop v key = Inr Undefined"

text \<open>
  The functions that the iterator calls back. \<open>NullFunc\<close> is the \<open>nullFunc\<close> of the module,
  which does nothing; \<open>Consumer v\<close> is a value supplied by the consumer.
  \<open>ForEachStep callback done\<close> is the closure that \<open>stepNext\<close> passes to \<open>next\<close>,
  \<open>function (err, item) { return err ? done(err) : stepResolved(item); }\<close>.
\<close>

datatype plain_callback = NullFunc | Consumer val

datatype callback = Plain plain_callback | ForEachStep val plain_callback

text \<open>
  The tasks queued with \<open>setImmediate\<close>: the closure of \<open>invokeNext\<close> (which captures the
  callback) and the \<open>stepNext\<close> of a \<open>forEach\<close>.
\<close>

datatype task = InvokeNextTick callback | StepNext val plain_callback

text \<open>
  What an observer sees: a call of a consumer's function with its arguments, an exception
  that nothing catches, and a resumption of a coroutine whose body has already ended.
\<close>

datatype event = Called func "val list" | Uncaught val | ResumedTerminated

text \<open>
  Modelled from the spec: the \<open>Coro\<close> base class (\<open>../coro\<close>) is not among the sources. By
  the spec a coroutine runs its body on resumption until the body yields (the protocol's
  \<open>yield\<close> is called and the coroutine is suspended), returns (\<open>return\<close> is called) or
  throws (\<open>throw\<close> is called). The body is represented by what it still has to do: the
  values it will yield, and how it ends. Nothing runs before the first resumption.
\<close>

datatype ending = Returns val | Throws val

datatype fiber = Suspended "val list" ending | Terminated

text \<open>
  The state of one \<open>IterableCpsCoro\<close> and of the event loop around it. \<open>isDone\<close> is the
  field \<open>done\<close> of the coroutine; \<open>nextCallback\<close> is \<open>None\<close> for \<open>null\<close>.
\<close>

record iter_state =
  isDone :: bool
  nextCallback :: "callback option"
  fiber :: fiber
  queue :: "task list"
  trace :: "event list"

text \<open>An exception that nothing catches ends the program: no queued task runs after it.\<close>

definition crash :: "val \<Rightarrow> iter_state \<Rightarrow> iter_state" where
  "crash e st = st\<lparr>trace := trace st @ [Uncaught e], queue := []\<rparr>"

fun call_val :: "val \<Rightarrow> val list \<Rightarrow> iter_state \<Rightarrow> iter_state" where
  "call_val (Fn f) args st = st\<lparr>trace := trace st @ [Called f args]\<rparr>"
| "call_val v args st = crash (Error ''TypeError'' ''not a function'') st"

fun call_plain :: "plain_callback \<Rightarrow> val list \<Rightarrow> iter_state \<Rightarrow> iter_state" where
  "call_plain NullFunc args st = st"
| "call_plain (Consumer v) args st = call_val v args st"

text \<open>\<open>x || nullFunc\<close>\<close>

definition or_nullFunc :: "val \<Rightarrow> plain_callback" where
  "or_nullFunc v = (if truthy v then Consumer v else NullFunc)"

text \<open>
  \<open>stepResolved(item)\<close> of \<open>forEach\<close>:
  \<open>if (item.done) return done(null, item.value); callback(item.value); setImmediate(stepNext);\<close>
\<close>

definition stepResolved :: "val \<Rightarrow> plain_callback \<Rightarrow> val \<Rightarrow> iter_state \<Rightarrow> iter_state" where
  "stepResolved callback done_cb item st =
     (case get_prop item ''done'' of
        Inl e \<Rightarrow> crash e st
      | Inr d \<Rightarrow>
          (case get_prop item ''value'' of
             Inl e \<Rightarrow> crash e st
           | Inr v \<Rightarrow>
               if truthy d then call_plain done_cb [Null, v] st
               else (let st1 = call_val callback [v] st
                     in st1\<lparr>queue := queue st1 @ [StepNext callback done_cb]\<rparr>)))"

fun call_callback :: "callback \<Rightarrow> val list \<Rightarrow> iter_state \<Rightarrow> iter_state" where
  "call_callback (Plain c) args st = call_plain c args st"
| "call_callback (ForEachStep callback done_cb) args st =
     (let err = arg_at args 0; item = arg_at args 1
      in if truthy err then call_plain done_cb [err] st
         else stepResolved callback done_cb item st)"

text \<open>\<open>this.nextCallback(...)\<close>; calling \<open>null\<close> throws a TypeError.\<close>

definition call_nextCallback :: "val list \<Rightarrow> iter_state \<Rightarrow> iter_state" where
  "call_nextCallback args st =
     (case nextCallback st of
        None \<Rightarrow> crash (Error ''TypeError'' ''not a function'') st
      | Some c \<Rightarrow> call_callback c args st)"

text \<open>The three protocol operations of \<open>IterableCpsCoro\<close>, named after the methods.\<close>

definition coro_return :: "val \<Rightarrow> iter_state \<Rightarrow> iter_state" where
  "coro_return result st =
     call_nextCallback [Null, IterResult True result] (st\<lparr>isDone := True\<rparr>)"

definition coro_throw :: "val \<Rightarrow> iter_state \<Rightarrow> iter_state" where
  "coro_throw error st = call_nextCallback [error] st"

definition coro_yield :: "val \<Rightarrow> iter_state \<Rightarrow> iter_state" where
  "coro_yield v st = call_nextCallback [Null, IterResult False v] st"

text \<open>
  Modelled from the spec: \<open>resume\<close> of the \<open>Coro\<close> base class runs the body up to its next
  yield, return or throw. What it does to a coroutine whose body has ended is in neither
  the sources nor the spec; the model records the attempt and calls nothing.
\<close>

definition resume :: "iter_state \<Rightarrow> iter_state" where
  "resume st =
     (case fiber st of
        Suspended (v # vs) e \<Rightarrow> coro_yield v (st\<lparr>fiber := Suspended vs e\<rparr>)
      | Suspended [] (Returns r) \<Rightarrow> coro_return r (st\<lparr>fiber := Terminated\<rparr>)
      | Suspended [] (Throws x) \<Rightarrow> coro_throw x (st\<lparr>fiber := Terminated\<rparr>)
      | Terminated \<Rightarrow> st\<lparr>trace := trace st @ [ResumedTerminated]\<rparr>)"

text \<open>
  \<open>invokeNext(callback)\<close> stores the callback and queues the closure
  \<open>function () { return _this.done ? callback(new Error('iterated past end')) : _this.resume(); }\<close>,
  which \<open>invokeNext_tick\<close> runs.
\<close>

definition invokeNext :: "callback \<Rightarrow> iter_state \<Rightarrow> iter_state" where
  "invokeNext callback st =
     st\<lparr>nextCallback := Some callback, queue := queue st @ [InvokeNextTick callback]\<rparr>"

definition past_end :: val where
  "past_end = Error ''Error'' ''iterated past end''"

definition invokeNext_tick :: "callback \<Rightarrow> iter_state \<Rightarrow> iter_state" where
  "invokeNext_tick callback st =
     (if isDone st then call_callback callback [past_end] st
      else resume st)"

text \<open>\<open>AsyncIterator.prototype.next(callback)\<close>; an omitted callback is \<open>undefined\<close>.\<close>

definition iter_next :: "val list \<Rightarrow> iter_state \<Rightarrow> iter_state" where
  "iter_next arguments st = invokeNext (Plain (or_nullFunc (arg_at arguments 0))) st"

definition stepNext :: "val \<Rightarrow> plain_callback \<Rightarrow> iter_state \<Rightarrow> iter_state" where
  "stepNext callback done_cb st = invokeNext (ForEachStep callback done_cb) st"

text \<open>
  \<open>AsyncIterator.prototype.forEach(callback, done_)\<close>: the two checks throw to the caller;
  otherwise the first \<open>stepNext\<close> runs at once. The deferred object that the method
  creates is never used.
\<close>

definition forEach :: "val list \<Rightarrow> iter_state \<Rightarrow> val outcome \<times> iter_state" where
  "forEach arguments st =
     (let callback = arg_at arguments 0; done_arg = arg_at arguments 1 in
      if length arguments < 1
      then (Inl (Error ''Error'' ''forEach(): expected at least one argument''), st)
      else if \<not> isFunction callback
      then (Inl (Error ''Error'' ''forEach(): expected argument to be a function''), st)
      else (Inr Undefined, stepNext callback (or_nullFunc done_arg) st))"

text \<open>
  \<open>IterableCpsCoro.prototype.invoke\<close> returns a new iterator around the coroutine: the
  body has not started, nothing is queued, and \<open>nextCallback\<close> is \<open>null\<close>.
\<close>

definition new_iterator :: "val list \<Rightarrow> ending \<Rightarrow> iter_state" where
  "new_iterator yields e =
     \<lparr> isDone = False, nextCallback = None, fiber = Suspended yields e,
       queue = [], trace = [] \<rparr>"

text \<open>The event loop: \<open>step\<close> runs the first queued task, \<open>run n\<close> runs at most \<open>n\<close> tasks.\<close>

fun run_task :: "task \<Rightarrow> iter_state \<Rightarrow> iter_state" where
  "run_task (InvokeNextTick callback) st = invokeNext_tick callback st"
| "run_task (StepNext callback done_cb) st = stepNext callback done_cb st"

definition step :: "iter_state \<Rightarrow> iter_state" where
  "step st = (case queue st of [] \<Rightarrow> st | t # ts \<Rightarrow> run_task t (st\<lparr>queue := ts\<rparr>))"

fun run :: "nat \<Rightarrow> iter_state \<Rightarrow> iter_state" where
  "run 0 st = st"
| "run (Suc n) st = run n (step st)"

text \<open>
  A consumer that calls \<open>next\<close> once per argument list and lets the event loop run the
  queued task before it calls \<open>next\<close> again.
\<close>

fun consume :: "val list list \<Rightarrow> iter_state \<Rightarrow> iter_state" where
  "consume [] st = st"
| "consume (a # as) st = consume as (step (iter_next a st))"

text \<open>
  What the consumer observes of one call of its callback: a call with the arguments if it
  supplied a function, nothing if it supplied none (the no-op takes the call).
\<close>

definition delivered :: "val \<Rightarrow> val list \<Rightarrow> event list" where
  "delivered callback args = (case callback of Fn f \<Rightarrow> [Called f args] | _ \<Rightarrow> [])"

text \<open>The arguments with which the outcome of the body is passed to \<open>nextCallback\<close>.\<close>

definition outcome_args :: "ending \<Rightarrow> val list" where
  "outcome_args e = (case e of Returns r \<Rightarrow> [Null, IterResult True r] | Throws x \<Rightarrow> [x])"

text \<open>The TypeError of \<open>item.done\<close> when \<open>stepResolved\<close> is called without an item.\<close>

definition item_type_error :: val where
  "item_type_error = Error ''TypeError'' ''Cannot read property done of undefined''"

text \<open>
  How a \<open>forEach\<close> ends: \<open>done\<close> is called with the final value or with the error; an
  error that is not truthy is taken for no error, and reading \<open>item.done\<close> throws.
\<close>

definition forEach_ending :: "val \<Rightarrow> ending \<Rightarrow> event list" where
  "forEach_ending done_arg e =
     (case e of
        Returns r \<Rightarrow> delivered done_arg [Null, r]
      | Throws x \<Rightarrow> if truthy x then delivered done_arg [x] else [Uncaught item_type_error])"

section \<open>Example inputs\<close>

text \<open>
  A continuation-passing protocol whose invoker takes a callback after the coroutine, two
  invokees, an invokee named like a placeholder of the template, a consumer's callback,
  and a host whose pool counts the coroutines acquired and whose invoker returns its
  first own argument.
\<close>

definition cps_invoke :: func where
  "cps_invoke = Func [] [''co'', ''callback''] 10"

definition cps_protocol :: obj where
  "cps_protocol = fmupd ''invoke'' (Fn cps_invoke) bootstrap_protocol"

definition sum_invokee :: func where
  "sum_invokee = Func ''sum'' [''a'', ''b''] 20"

definition load_invokee :: func where
  "load_invokee = Func ''load'' [''path'', ''callback''] 21"


definition consumer_fn :: func where
  "consumer_fn = Func ''cb'' [''err'', ''result''] 30"

definition example_host :: "nat host" where
  "example_host =
     \<lparr> DEBUG = False,
       global_object =
         Obj (fmupd ''setImmediate'' (Fn (Func ''setImmediate'' [''callback''] 50)) fmempty),
       js_eval = (\<lambda>source protocol invokee. Inl (Error ''SyntaxError'' ''Unexpected token'')),
       js_call = (\<lambda>source protocol invokee self arguments p. (Inr Undefined, p)),
       syntax_message = (\<lambda>source. ''Unexpected strict mode reserved word''),
       acquireCoro = (\<lambda>protocol body p. (Num (int p), Suc p)),
       call_fn = (\<lambda>f args p. (Inr (arg_at args 1), p)),
       call_factory = (\<lambda>f options baseProtocol heap. (Inr (Obj fmempty), heap)) \<rparr>"


text \<open>A pipeline on which nothing has happened yet, and the bootstrap builder.\<close>

definition fresh_pipeline :: "nat pipeline" where
  "fresh_pipeline = \<lparr> isLocked = False, registered = [], pool = 0 \<rparr>"

definition bootstrap_builder :: builder where
  "bootstrap_builder =
     \<lparr> b_protocol = bootstrap_protocol, b_options = fmempty,
       b_protocolFactory = empty_factory, b_baseProtocol = bootstrap_protocol \<rparr>"


text \<open>
  The heap once the module is loaded (the options and the base protocol of the bootstrap
  builder, and its protocol) and the bootstrap builder in it; a configuration map; a
  protocol factory; and a host whose factories replace the \<open>invoke\<close> operation of the base
  protocol they are given before they return their overrides.
\<close>

definition bootstrap_heap :: heap where
  "bootstrap_heap = [fmempty, bootstrap_protocol, bootstrap_protocol]"

definition bootstrap_ref :: builder_ref where
  "bootstrap_ref =
     \<lparr> protocol_ref = 2, options_ref = 0,
       protocolFactory_of = empty_factory, baseProtocol_ref = 1 \<rparr>"




text \<open>The two callbacks of a consumer, and the error of the body of the test file.\<close>

definition each_fn :: func where
  "each_fn = Func ''each'' [''value''] 31"

definition finished_fn :: func where
  "finished_fn = Func ''finished'' [''err'', ''result''] 32"

definition out_of_range :: val where
  "out_of_range = Error ''Error'' ''out of range''"

section \<open>Distribution of the arguments\<close>

lemma js_set_length: "i < length a \<Longrightarrow> length (js_set a i v) = length a"
  by (simp add: js_set_def)

lemma copy_invokee_args_inv:
  "length xs = nat n \<Longrightarrow> i \<le> nat n \<Longrightarrow>
   copy_invokee_args args n i xs = (take i xs @ map (arg_at args) [i..<nat n], nat n)"
proof (induction args n i xs rule: copy_invokee_args.induct)
  case (1 arguments invokeeArgCount i invokeeArgs)
  show ?case
  proof (cases "int i < invokeeArgCount")
    case True
    then have lt: "i < nat invokeeArgCount" by linarith
    have len: "length (js_set invokeeArgs i (arg_at arguments i)) = nat invokeeArgCount"
      using lt "1.prems" by (simp add: js_set_def)
    have ih: "copy_invokee_args arguments invokeeArgCount (Suc i) (js_set invokeeArgs i (arg_at arguments i))
        = (take (Suc i) (js_set invokeeArgs i (arg_at arguments i)) @ map (arg_at arguments) [Suc i..<nat invokeeArgCount], nat invokeeArgCount)"
      using "1.IH"[OF True len] lt by simp
    have tk: "take (Suc i) (js_set invokeeArgs i (arg_at arguments i)) = take i invokeeArgs @ [arg_at arguments i]"
      using lt "1.prems" by (simp add: js_set_def take_Suc_conv_app_nth)
    have up: "[i..<nat invokeeArgCount] = i # [Suc i..<nat invokeeArgCount]"
      using lt by (simp add: upt_conv_Cons)
    show ?thesis
      using True ih tk up
      by (subst copy_invokee_args.simps) simp
  next
    case False
    then have "i = nat invokeeArgCount" using "1.prems" by linarith
    then show ?thesis using False "1.prems"
      by (subst copy_invokee_args.simps) simp
  qed
qed

lemma copy_invoker_args_inv:
  "length xs = nat (k + 1) \<Longrightarrow> 1 \<le> j \<Longrightarrow> j \<le> nat (k + 1) \<Longrightarrow>
   copy_invoker_args args k i j xs = take j xs @ map (\<lambda>t. arg_at args (i + t - j)) [j..<nat (k + 1)]"
proof (induction args k i j xs rule: copy_invoker_args.induct)
  case (1 arguments invokerArgCount i j invokerArgs)
  show ?case
  proof (cases "int j \<le> invokerArgCount")
    case True
    then have lt: "j < nat (invokerArgCount + 1)" by linarith
    have len: "length (js_set invokerArgs j (arg_at arguments i)) = nat (invokerArgCount + 1)"
      using lt "1.prems" by (simp add: js_set_def)
    have ih: "copy_invoker_args arguments invokerArgCount (Suc i) (Suc j) (js_set invokerArgs j (arg_at arguments i))
        = take (Suc j) (js_set invokerArgs j (arg_at arguments i)) @
          map (\<lambda>t. arg_at arguments (Suc i + t - Suc j)) [Suc j..<nat (invokerArgCount + 1)]"
      using "1.IH"[OF True len] lt by simp
    have tk: "take (Suc j) (js_set invokerArgs j (arg_at arguments i)) = take j invokerArgs @ [arg_at arguments i]"
      using lt "1.prems" by (simp add: js_set_def take_Suc_conv_app_nth)
    have up: "[j..<nat (invokerArgCount + 1)] = j # [Suc j..<nat (invokerArgCount + 1)]"
      using lt by (simp add: upt_conv_Cons)
    show ?thesis
      using True ih tk up
      by (subst copy_invoker_args.simps) simp
  next
    case False
    then have "j = nat (invokerArgCount + 1)" using "1.prems" by linarith
    then show ?thesis using False "1.prems"
      by (subst copy_invoker_args.simps) simp
  qed
qed

lemma map_arg_at_take: "c \<le> length args \<Longrightarrow> map (arg_at args) [0..<c] = take c args"
  by (rule nth_equalityI) (simp_all add: arg_at_def)

lemma map_arg_at_drop:
  assumes "c + kk = length args"
  shows "map (\<lambda>t. arg_at args (c + t - 1)) [1..<Suc kk] = drop c args"
proof (rule nth_equalityI)
  show "length (map (\<lambda>t. arg_at args (c + t - 1)) [1..<Suc kk]) = length (drop c args)"
    using assms by (simp del: upt_Suc)
next
  fix i assume "i < length (map (\<lambda>t. arg_at args (c + t - 1)) [1..<Suc kk])"
  then have ik: "i < kk" by (simp del: upt_Suc)
  then have "map (\<lambda>t. arg_at args (c + t - 1)) [1..<Suc kk] ! i = arg_at args (c + (1 + i) - 1)"
    by (subst nth_map_upt) simp_all
  also have "\<dots> = drop c args ! i" using ik assms by (simp add: arg_at_def)
  finally show "map (\<lambda>t. arg_at args (c + t - 1)) [1..<Suc kk] ! i = drop c args ! i" .
qed

lemma distribute_arguments:
  assumes "0 \<le> k" "k \<le> int (length args)"
  shows "copy_invokee_args args (int (length args) - k) 0 (replicate (nat (int (length args) - k)) Undefined)
           = (take (length args - nat k) args, length args - nat k)"
    and "js_set (copy_invoker_args args k (length args - nat k) 1 (replicate (nat (k + 1)) Undefined)) 0 co
           = co # drop (length args - nat k) args"
proof -
  have n: "nat (int (length args) - k) = length args - nat k" using assms by linarith
  show "copy_invokee_args args (int (length args) - k) 0 (replicate (nat (int (length args) - k)) Undefined)
           = (take (length args - nat k) args, length args - nat k)"
    using copy_invokee_args_inv[of "replicate (nat (int (length args) - k)) Undefined" "int (length args) - k" 0 args]
    by (simp add: n map_arg_at_take)
  have k1: "nat (k + 1) = Suc (nat k)" using assms by linarith
  have "copy_invoker_args args k (length args - nat k) 1 (replicate (nat (k + 1)) Undefined)
          = take 1 (replicate (nat (k + 1)) Undefined) @
            map (\<lambda>t. arg_at args (length args - nat k + t - 1)) [1..<nat (k + 1)]"
    by (rule copy_invoker_args_inv) (simp_all add: k1)
  also have "\<dots> = Undefined # drop (length args - nat k) args"
  proof -
    have "length args - nat k + nat k = length args" using assms by linarith
    from map_arg_at_drop[OF this] show ?thesis by (simp add: k1 del: upt_Suc)
  qed
  finally show "js_set (copy_invoker_args args k (length args - nat k) 1 (replicate (nat (k + 1)) Undefined)) 0 co
           = co # drop (length args - nat k) args"
    by (simp add: js_set_def)
qed

lemma suspendable_slow_distributes:
  assumes "0 \<le> k" "k \<le> int (length args)"
  shows "suspendable_slow h protocol invoke invokee k self args p =
           invoke_with h protocol invoke (B1 invokee self (take (length args - nat k) args))
             (drop (length args - nat k) args) p"
proof -
  have a: "\<not> int (length args) - k < 0" "\<not> k + 1 < 0" using assms by linarith+
  show ?thesis
    unfolding suspendable_slow_def invoke_with_def new_Array_def Let_def
    using a distribute_arguments[OF assms]
    by (simp split: prod.splits)
qed

lemma suspendable_slow_too_few:
  assumes "int (length args) < k"
  shows "suspendable_slow h protocol invoke invokee k self args p = (Inl range_error, p)"
  using assms unfolding suspendable_slow_def new_Array_def range_error_def Let_def by simp

lemma protocol_invoke_cps: "protocol_invoke cps_protocol = Inr cps_invoke"
  by (simp add: protocol_invoke_def cps_protocol_def)

lemma slow_synthesis:
  "protocol_invoke protocol = Inr invoke \<Longrightarrow>
   createSuspendableFunctionSlow h protocol invokee options =
     Inr \<lparr> sf_name = ''suspendable'', sf_params = [''$ARGS''],
           sf_call = suspendable_slow h protocol invoke invokee (invokerArgCount_of invoke) \<rparr>"
  by (simp add: createSuspendableFunctionSlow_def)

lemma invokerArgCount_nat:
  "fparams invoke \<noteq> [] \<Longrightarrow> invokerArgCount_of invoke = int (length (fparams invoke) - 1)"
  by (cases "fparams invoke") (simp_all add: invokerArgCount_of_def)

section \<open>The substitutions\<close>









section \<open>Texts without a dollar sign\<close>










section \<open>The source that the substitutions give\<close>






section \<open>Reading the head of the source\<close>

















section \<open>The function that the evaluation returns\<close>





lemma find_conflict_None: "find_conflict xs ys = None \<longleftrightarrow> set xs \<inter> set ys = {}"
  by (induction xs) auto

lemma find_conflict_Some: "find_conflict xs ys = Some n \<Longrightarrow> n \<in> set xs \<and> n \<in> set ys"
  by (induction xs) (auto split: if_splits)






section \<open>Parameters by name and by position\<close>









section \<open>Claims about the synthesis of suspendable functions\<close>

text \<open>
  C3 (as amended). Let the protocol's \<open>invoke\<close> declare the coroutine handle, so that
  \<open>invokerArgCount\<close> is its arity minus one. The generic strategy always produces a
  function. A call of it with \<open>N\<close> arguments, \<open>N\<close> at least \<open>invokerArgCount\<close>, acquires a
  coroutine whose body applies the invokee, in the calling context of the call, to the
  leading \<open>N - invokerArgCount\<close> arguments; it then calls \<open>invoke\<close> with the coroutine
  followed by the trailing \<open>invokerArgCount\<close> arguments, and the outcome of \<open>invoke\<close> is
  the outcome of the call. A call with fewer than \<open>invokerArgCount\<close> arguments throws a
  RangeError and acquires no coroutine.
\<close>

theorem slow_call_splits_arguments:
  assumes "protocol_invoke protocol = Inr invoke" and "fparams invoke \<noteq> []"
  shows "\<exists>f. createSuspendableFunctionSlow h protocol invokee options = Inr f \<and>
           (\<forall>self arguments p.
              sf_call f self arguments p =
                (if length arguments < length (fparams invoke) - 1 then (Inl range_error, p)
                 else invoke_with h protocol invoke
                        (B1 invokee self
                           (take (length arguments - (length (fparams invoke) - 1)) arguments))
                        (drop (length arguments - (length (fparams invoke) - 1)) arguments) p))"
proof -
  let ?k = "length (fparams invoke) - 1"
  let ?f = "\<lparr> sf_name = ''suspendable'', sf_params = [''$ARGS''],
             sf_call = suspendable_slow h protocol invoke invokee (invokerArgCount_of invoke) \<rparr>"
  have iac: "invokerArgCount_of invoke = int ?k"
    using assms(2) by (rule invokerArgCount_nat)
  have call: "suspendable_slow h protocol invoke invokee (invokerArgCount_of invoke) self arguments p =
          (if length arguments < ?k then (Inl range_error, p)
           else invoke_with h protocol invoke (B1 invokee self (take (length arguments - ?k) arguments))
                  (drop (length arguments - ?k) arguments) p)" for self arguments p
  proof (cases "length arguments < ?k")
    case True
    then have lt: "int (length arguments) < int ?k" by linarith
    show ?thesis unfolding iac using suspendable_slow_too_few[OF lt] True by (simp only: if_True)
  next
    case False
    then have ge: "int ?k \<le> int (length arguments)" by linarith
    have nn: "0 \<le> int ?k" by simp
    show ?thesis unfolding iac
      using suspendable_slow_distributes[OF nn ge] False by (simp only: if_False nat_int)
  qed
  have "createSuspendableFunctionSlow h protocol invokee options = Inr ?f"
    using assms(1) by (rule slow_synthesis)
  moreover have "\<forall>self arguments p. sf_call ?f self arguments p =
          (if length arguments < ?k then (Inl range_error, p)
           else invoke_with h protocol invoke (B1 invokee self (take (length arguments - ?k) arguments))
                  (drop (length arguments - ?k) arguments) p)"
    using call by simp
  ultimately show ?thesis by blast
qed

text \<open>
  The theorem at the continuation-passing protocol: of the three arguments of the call,
  two go to the invokee and the callback goes to the invoker.
\<close>

theorem slow_call_splits_arguments_witness:
  "protocol_invoke cps_protocol = Inr cps_invoke \<and> fparams cps_invoke \<noteq> [] \<and>
   sf_call (projr (createSuspendableFunctionSlow example_host cps_protocol sum_invokee fmempty))
       None [Num 1, Num 2, Fn consumer_fn] 0
     = invoke_with example_host cps_protocol cps_invoke (B1 sum_invokee None [Num 1, Num 2])
         [Fn consumer_fn] 0 \<and>
   invoke_with example_host cps_protocol cps_invoke (B1 sum_invokee None [Num 1, Num 2])
         [Fn consumer_fn] 0 = (Inr (Fn consumer_fn), 1)"
proof -
  have a: "protocol_invoke cps_protocol = Inr cps_invoke" by (rule protocol_invoke_cps)
  have b: "fparams cps_invoke \<noteq> []" by (simp add: cps_invoke_def)
  from slow_call_splits_arguments[OF a b, of example_host sum_invokee fmempty]
  obtain f where f: "createSuspendableFunctionSlow example_host cps_protocol sum_invokee fmempty = Inr f"
    and call: "\<And>self arguments p. sf_call f self arguments p =
                (if length arguments < length (fparams cps_invoke) - 1 then (Inl range_error, p)
                 else invoke_with example_host cps_protocol cps_invoke
                        (B1 sum_invokee self
                           (take (length arguments - (length (fparams cps_invoke) - 1)) arguments))
                        (drop (length arguments - (length (fparams cps_invoke) - 1)) arguments) p)"
    by blast
  have "sf_call f None [Num 1, Num 2, Fn consumer_fn] 0
     = invoke_with example_host cps_protocol cps_invoke (B1 sum_invokee None [Num 1, Num 2])
         [Fn consumer_fn] 0"
    by (subst call) (simp add: cps_invoke_def)
  moreover have "invoke_with example_host cps_protocol cps_invoke (B1 sum_invokee None [Num 1, Num 2])
         [Fn consumer_fn] 0 = (Inr (Fn consumer_fn), 1)"
    by (simp add: invoke_with_def example_host_def arg_at_def)
  ultimately show ?thesis using a b f by simp
qed

text \<open>
  C3 as stated fails for a call with fewer arguments than the invoker takes: with no
  argument at all the call throws, nothing is acquired from the pool, and \<open>invoke\<close> is
  never called (calling it would have returned, with one coroutine acquired).
\<close>

theorem slow_call_too_few_arguments_counterexample:
  "sf_call (projr (createSuspendableFunctionSlow example_host cps_protocol sum_invokee fmempty))
       None [] 0 = (Inl range_error, 0) \<and>
   invoke_with example_host cps_protocol cps_invoke (B1 sum_invokee None []) [] 0
     = (Inr Undefined, 1)"
  by (simp add: slow_synthesis[OF protocol_invoke_cps] suspendable_slow_too_few
        invokerArgCount_of_def cps_invoke_def invoke_with_def example_host_def arg_at_def)




text \<open>
  C5 (as amended). Whenever the invokee's parameters and the invoker's own parameters
  (those after the coroutine handle) share a name, the specialised strategy fails at
  synthesis time with the naming-conflict error for such a name, so that no function is
  produced and no call can occur. The generic strategy does not read parameter names: it
  produces its function for the same pair.
\<close>

theorem fast_rejects_shared_names:
  assumes "protocol_invoke protocol = Inr invoke"
      and "set (getParamNames invokee) \<inter> set (drop 1 (getParamNames invoke)) \<noteq> {}"
  shows "(\<exists>n. n \<in> set (getParamNames invokee) \<and> n \<in> set (drop 1 (getParamNames invoke)) \<and>
               createSuspendableFunctionFast h protocol invokee options = Inl (conflict_error n)) \<and>
         (\<exists>f. createSuspendableFunctionSlow h protocol invokee options = Inr f)"
proof -
  from assms(2) obtain n where
    n: "find_conflict (getParamNames invokee) (drop 1 (getParamNames invoke)) = Some n"
    using find_conflict_None[of "getParamNames invokee" "drop 1 (getParamNames invoke)"] by auto
  then have "createSuspendableFunctionFast h protocol invokee options = Inl (conflict_error n)"
    using assms(1) by (simp add: createSuspendableFunctionFast_def Let_def)
  moreover note find_conflict_Some[OF n]
  moreover have "\<exists>f. createSuspendableFunctionSlow h protocol invokee options = Inr f"
    using slow_synthesis[OF assms(1)] by blast
  ultimately show ?thesis by blast
qed

text \<open>
  The theorem at an invokee that names a parameter \<open>callback\<close>, as the invoker of the
  continuation-passing protocol does.
\<close>

theorem fast_rejects_shared_names_witness:
  "protocol_invoke cps_protocol = Inr cps_invoke \<and>
   set (getParamNames load_invokee) \<inter> set (drop 1 (getParamNames cps_invoke)) \<noteq> {} \<and>
   createSuspendableFunctionFast example_host cps_protocol load_invokee fmempty
     = Inl (conflict_error ''callback'')"
proof -
  have b: "set (getParamNames load_invokee) \<inter> set (drop 1 (getParamNames cps_invoke)) \<noteq> {}"
    by (simp add: getParamNames_def load_invokee_def cps_invoke_def)
  from fast_rejects_shared_names[OF protocol_invoke_cps b, of example_host fmempty]
  obtain n where "n \<in> set (getParamNames load_invokee)" "n \<in> set (drop 1 (getParamNames cps_invoke))"
    "createSuspendableFunctionFast example_host cps_protocol load_invokee fmempty = Inl (conflict_error n)"
    by blast
  moreover from this(2) have "n = ''callback''"
    by (simp add: getParamNames_def cps_invoke_def)
  ultimately show ?thesis using b protocol_invoke_cps by simp
qed

text \<open>
  C5 as stated fails for the generic strategy: for the same pair, which shares the name
  \<open>callback\<close>, it raises nothing and returns its function.
\<close>

theorem slow_accepts_shared_names_counterexample:
  "set (getParamNames load_invokee) \<inter> set (drop 1 (getParamNames cps_invoke)) \<noteq> {} \<and>
   \<not> isl (createSuspendableFunctionSlow example_host cps_protocol load_invokee fmempty) \<and>
   sf_name (projr (createSuspendableFunctionSlow example_host cps_protocol load_invokee fmempty))
     = ''suspendable''"
  by (simp add: slow_synthesis[OF protocol_invoke_cps] getParamNames_def load_invokee_def
        cps_invoke_def)





section \<open>Claims about builders and the pipeline lock\<close>

text \<open>
  C10. A call of a builder with an argument count other than one, or with an argument that
  is not a function, throws the usage error of the failed assertion, and the pipeline it
  leaves behind is locked whatever it was before: the lock is written before the
  arguments are validated.
\<close>

theorem builder_call_invalid_still_locks:
  assumes "length arguments \<noteq> 1 \<or> \<not> isFunction (arg_at arguments 0)"
  shows "builder_call h b arguments pl =
           (Inl (assertion_error
                   (if length arguments \<noteq> 1 then ''async builder: expected a single argument''
                    else ''async builder: expected argument to be a function'')),
            pl\<lparr>isLocked := True\<rparr>)"
proof (cases "length arguments \<noteq> 1")
  case True
  then show ?thesis by (simp add: builder_call_def Let_def)
next
  case False
  with assms have "\<not> isFunction (arg_at arguments 0)" by simp
  then show ?thesis using False
    by (cases "arg_at arguments 0") (simp_all add: builder_call_def Let_def)
qed

text \<open>
  The theorem at a call of the bootstrap builder with a number, on a pipeline that was
  not locked.
\<close>

theorem builder_call_invalid_still_locks_witness:
  "\<not> isFunction (arg_at [Num 5] 0) \<and>
   \<not> isLocked fresh_pipeline \<and>
   fst (builder_call example_host bootstrap_builder [Num 5] fresh_pipeline)
     = Inl (assertion_error ''async builder: expected argument to be a function'') \<and>
   isLocked (snd (builder_call example_host bootstrap_builder [Num 5] fresh_pipeline))"
proof -
  have a: "length [Num 5] \<noteq> 1 \<or> \<not> isFunction (arg_at [Num 5] 0)"
    by (simp add: arg_at_def)
  from builder_call_invalid_still_locks[OF a, of example_host bootstrap_builder fresh_pipeline]
  show ?thesis using a by (simp add: fresh_pipeline_def)
qed

lemma builder_call_locks: "isLocked (snd (builder_call h b arguments pl))"
  by (simp add: builder_call_def Let_def split: val.splits)

lemma exec_op_keeps_lock: "isLocked pl \<Longrightarrow> isLocked (exec_op h x pl)"
  by (cases x) (simp_all add: builder_call_locks call_suspendable_def use_def split: prod.splits)

lemma run_ops_keeps_lock: "isLocked pl \<Longrightarrow> isLocked (run_ops h xs pl)"
  by (induction xs arbitrary: pl) (simp_all add: exec_op_keeps_lock)

lemma use_locked: "isLocked pl \<Longrightarrow> use newProtocol pl = (Inl use_locked_error, pl)"
  by (simp add: use_def use_locked_error_def)

text \<open>
  C6. Every call of a builder leaves the pipeline locked. Whatever the program does with
  the pipeline afterwards (calls of builders, calls of suspendable functions, attempts to
  register a default protocol), the pipeline stays locked, and every attempt to register
  a new default protocol fails and changes nothing.
\<close>

theorem lock_is_set_and_never_cleared:
  "isLocked (snd (builder_call h b arguments pl)) \<and>
   isLocked (run_ops h xs (snd (builder_call h b arguments pl))) \<and>
   use newProtocol (run_ops h xs (snd (builder_call h b arguments pl)))
     = (Inl use_locked_error, run_ops h xs (snd (builder_call h b arguments pl)))"
  using builder_call_locks[of h b arguments pl] run_ops_keeps_lock use_locked by blast

lemma merge_value_None [simp]: "merge_value None v = v"
  by (simp add: merge_value_def)

lemma merge_source_copy: "merge_source fmempty (Obj m) = m"
proof (rule fmap_ext)
  fix key
  show "fmlookup (merge_source fmempty (Obj m)) key = fmlookup m key"
    by (cases "fmlookup m key") (simp_all add: merge_source_def)
qed

lemma mergeProps_single: "mergeProps target [source] = merge_source target source"
  by (simp add: mergeProps_def)

lemma mergeProps_copy: "mergeProps fmempty [Obj m] = m"
  by (simp add: mergeProps_single merge_source_copy)

lemma fmlookup_merge_source:
  "fmlookup (merge_source target (Obj s)) key =
     (case fmlookup s key of
        None \<Rightarrow> fmlookup target key
      | Some v \<Rightarrow> Some (merge_value (fmlookup target key) v))"
  by (auto simp: merge_source_def fmlookup_dom_iff split: option.splits)


lemma extends_refl: "extends heap heap"
  by (simp add: extends_def)



















lemma merge_source_empty: "merge_source target (Obj fmempty) = target"
  by (rule fmap_ext) (simp add: fmlookup_merge_source)

lemma asyncBuilder_example_host: "asyncBuilder example_host = (Inr bootstrap_ref, bootstrap_heap)"
  by (simp add: asyncBuilder_def createAsyncBuilder_def new_object_def example_host_def
        mergeProps_at_def mergeProps_def merge_source_copy merge_source_empty
        bootstrap_ref_def bootstrap_heap_def)

lemma bootstrap_builder_at: "builder_at bootstrap_heap bootstrap_ref = bootstrap_builder"
  by (simp add: builder_at_def bootstrap_heap_def bootstrap_ref_def bootstrap_builder_def)



section \<open>Claims about the iterable protocol\<close>

lemma run_add: "run (m + n) st = run n (run m st)"
  by (induction m arbitrary: st) simp_all

lemma run_idle: "queue st = [] \<Longrightarrow> run n st = st"
  by (induction n) (simp_all add: step_def)

lemma call_plain_delivered:
  "isFunction c \<or> \<not> truthy c \<Longrightarrow>
   call_plain (or_nullFunc c) args st = st\<lparr>trace := trace st @ delivered c args\<rparr>"
  by (cases c) (auto simp: or_nullFunc_def delivered_def)

lemma forEach_last_step:
  assumes "queue s = [InvokeNextTick (ForEachStep (Fn cb) (or_nullFunc d))]"
      and "nextCallback s = Some (ForEachStep (Fn cb) (or_nullFunc d))"
      and "fiber s = Suspended [] e" and "\<not> isDone s"
      and "isFunction d \<or> \<not> truthy d"
  shows "step s =
           s\<lparr> isDone := (case e of Returns r \<Rightarrow> True | Throws x \<Rightarrow> False),
              fiber := Terminated, queue := [],
              trace := trace s @ forEach_ending d e \<rparr>"
  using assms(1-4)
  by (cases e)
     (simp_all add: step_def invokeNext_tick_def resume_def coro_return_def coro_throw_def
        call_nextCallback_def stepResolved_def crash_def arg_at_def item_type_error_def
        forEach_ending_def call_plain_delivered[OF assms(5)])

lemma forEach_yield_steps:
  assumes "queue s = [InvokeNextTick (ForEachStep (Fn cb) D)]"
      and "nextCallback s = Some (ForEachStep (Fn cb) D)"
      and "fiber s = Suspended (v # vs) e" and "\<not> isDone s"
  shows "step (step s) = s\<lparr> fiber := Suspended vs e, trace := trace s @ [Called cb [v]] \<rparr>"
  using assms
  by (simp add: step_def invokeNext_tick_def resume_def coro_yield_def
        call_nextCallback_def stepResolved_def arg_at_def stepNext_def invokeNext_def)

lemma forEach_loop:
  assumes "queue s = [InvokeNextTick (ForEachStep (Fn cb) (or_nullFunc d))]"
      and "nextCallback s = Some (ForEachStep (Fn cb) (or_nullFunc d))"
      and "fiber s = Suspended vs e" and "\<not> isDone s"
      and "isFunction d \<or> \<not> truthy d"
  shows "run (2 * length vs + 1) s =
           s\<lparr> isDone := (case e of Returns r \<Rightarrow> True | Throws x \<Rightarrow> False),
              fiber := Terminated, queue := [],
              trace := trace s @ map (\<lambda>v. Called cb [v]) vs @ forEach_ending d e \<rparr>"
  using assms(1-4)
proof (induction vs arbitrary: s)
  case Nil
  then show ?case using forEach_last_step[OF _ _ _ _ assms(5), of s cb e] by simp
next
  case (Cons v vs)
  let ?s2 = "s\<lparr> fiber := Suspended vs e, trace := trace s @ [Called cb [v]] \<rparr>"
  have two: "step (step s) = ?s2"
    using Cons.prems by (rule forEach_yield_steps)
  have "run (2 * length (v # vs) + 1) s = run (2 * length vs + 1) (step (step s))"
    by simp
  also have "\<dots> = run (2 * length vs + 1) ?s2" by (simp only: two)
  also have "\<dots> = ?s2\<lparr> isDone := (case e of Returns r \<Rightarrow> True | Throws x \<Rightarrow> False),
              fiber := Terminated, queue := [],
              trace := trace ?s2 @ map (\<lambda>v. Called cb [v]) vs @ forEach_ending d e \<rparr>"
    using Cons.prems by (intro Cons.IH) simp_all
  finally show ?case by simp
qed

lemma forEach_run:
  assumes "queue st = []" and "fiber st = Suspended vs e" and "\<not> isDone st"
      and "isFunction d \<or> \<not> truthy d" and "2 * length vs + 1 \<le> n"
  shows "forEach [Fn cb, d] st =
           (Inr Undefined,
            st\<lparr> nextCallback := Some (ForEachStep (Fn cb) (or_nullFunc d)),
                queue := [InvokeNextTick (ForEachStep (Fn cb) (or_nullFunc d))] \<rparr>)"
    and "run n (snd (forEach [Fn cb, d] st)) =
           st\<lparr> isDone := (case e of Returns r \<Rightarrow> True | Throws x \<Rightarrow> False),
               nextCallback := Some (ForEachStep (Fn cb) (or_nullFunc d)),
               fiber := Terminated, queue := [],
               trace := trace st @ map (\<lambda>v. Called cb [v]) vs @ forEach_ending d e \<rparr>"
proof -
  let ?F = "ForEachStep (Fn cb) (or_nullFunc d)"
  let ?s1 = "st\<lparr> nextCallback := Some ?F, queue := [InvokeNextTick ?F] \<rparr>"
  show fe: "forEach [Fn cb, d] st = (Inr Undefined, ?s1)"
    using assms(1) by (simp add: forEach_def stepNext_def invokeNext_def arg_at_def Let_def)
  let ?k = "2 * length vs + 1"
  have loop: "run ?k ?s1 =
           ?s1\<lparr> isDone := (case e of Returns r \<Rightarrow> True | Throws x \<Rightarrow> False),
               fiber := Terminated, queue := [],
               trace := trace ?s1 @ map (\<lambda>v. Called cb [v]) vs @ forEach_ending d e \<rparr>"
    using assms(2,3) by (intro forEach_loop[OF _ _ _ _ assms(4)]) simp_all
  have "run n ?s1 = run (n - ?k) (run ?k ?s1)"
    using assms(5) run_add[of ?k "n - ?k" ?s1] by simp
  also have "\<dots> = run ?k ?s1"
    by (rule run_idle, subst loop, simp)
  finally have "run n ?s1 =
           ?s1\<lparr> isDone := (case e of Returns r \<Rightarrow> True | Throws x \<Rightarrow> False),
               fiber := Terminated, queue := [],
               trace := trace ?s1 @ map (\<lambda>v. Called cb [v]) vs @ forEach_ending d e \<rparr>"
    by (simp only: loop)
  then show "run n (snd (forEach [Fn cb, d] st)) =
           st\<lparr> isDone := (case e of Returns r \<Rightarrow> True | Throws x \<Rightarrow> False),
               nextCallback := Some (ForEachStep (Fn cb) (or_nullFunc d)),
               fiber := Terminated, queue := [],
               trace := trace st @ map (\<lambda>v. Called cb [v]) vs @ forEach_ending d e \<rparr>"
    unfolding fe by simp
qed




lemma next_yield_step:
  assumes "queue st = []" and "fiber st = Suspended (v # vs) e" and "\<not> isDone st"
      and "isFunction (arg_at a 0) \<or> \<not> truthy (arg_at a 0)"
  shows "step (iter_next a st) =
           st\<lparr> nextCallback := Some (Plain (or_nullFunc (arg_at a 0))),
               fiber := Suspended vs e,
               trace := trace st @ delivered (arg_at a 0) [Null, IterResult False v] \<rparr>"
  using assms(1-3)
  by (simp add: iter_next_def invokeNext_def step_def invokeNext_tick_def resume_def
        coro_yield_def call_nextCallback_def call_plain_delivered[OF assms(4)])

lemma next_last_step:
  assumes "queue st = []" and "fiber st = Suspended [] e" and "\<not> isDone st"
      and "isFunction (arg_at a 0) \<or> \<not> truthy (arg_at a 0)"
  shows "step (iter_next a st) =
           st\<lparr> isDone := (case e of Returns r \<Rightarrow> True | Throws x \<Rightarrow> False),
               nextCallback := Some (Plain (or_nullFunc (arg_at a 0))),
               fiber := Terminated,
               trace := trace st @ delivered (arg_at a 0) (outcome_args e) \<rparr>"
  using assms(1-3)
  by (cases e)
     (simp_all add: iter_next_def invokeNext_def step_def invokeNext_tick_def resume_def
        coro_return_def coro_throw_def call_nextCallback_def outcome_args_def
        call_plain_delivered[OF assms(4)])

lemma next_after_completion:
  assumes "queue st = []" and "isDone st"
      and "isFunction (arg_at a 0) \<or> \<not> truthy (arg_at a 0)"
  shows "step (iter_next a st) =
           st\<lparr> nextCallback := Some (Plain (or_nullFunc (arg_at a 0))),
               trace := trace st @ delivered (arg_at a 0) [past_end] \<rparr>"
  using assms(1,2)
  by (simp add: iter_next_def invokeNext_def step_def invokeNext_tick_def past_end_def
        call_plain_delivered[OF assms(3)])

lemma consume_all:
  assumes "queue st = []" and "fiber st = Suspended vs e" and "\<not> isDone st"
      and "length as = length vs + 1"
      and "list_all (\<lambda>a. isFunction (arg_at a 0) \<or> \<not> truthy (arg_at a 0)) as"
  shows "consume as st =
           st\<lparr> isDone := (case e of Returns r \<Rightarrow> True | Throws x \<Rightarrow> False),
               nextCallback := Some (Plain (or_nullFunc (arg_at (last as) 0))),
               fiber := Terminated,
               trace := trace st @
                 concat (map2 (\<lambda>a args. delivered (arg_at a 0) args) as
                           (map (\<lambda>v. [Null, IterResult False v]) vs @ [outcome_args e])) \<rparr>"
  using assms
proof (induction vs arbitrary: st as)
  case Nil
  then obtain a where as: "as = [a]" by (cases as) simp_all
  with Nil.prems show ?case using next_last_step[of st e a] by simp
next
  case (Cons v vs)
  then obtain a as' where as: "as = a # as'" and len: "length as' = length vs + 1"
    by (cases as) simp_all
  then have ne: "as' \<noteq> []" by auto
  let ?s1 = "st\<lparr> nextCallback := Some (Plain (or_nullFunc (arg_at a 0))),
               fiber := Suspended vs e,
               trace := trace st @ delivered (arg_at a 0) [Null, IterResult False v] \<rparr>"
  have one: "step (iter_next a st) = ?s1"
    using Cons.prems as by (intro next_yield_step) simp_all
  have "consume as' ?s1 =
          ?s1\<lparr> isDone := (case e of Returns r \<Rightarrow> True | Throws x \<Rightarrow> False),
               nextCallback := Some (Plain (or_nullFunc (arg_at (last as') 0))),
               fiber := Terminated,
               trace := trace ?s1 @
                 concat (map2 (\<lambda>a args. delivered (arg_at a 0) args) as'
                           (map (\<lambda>v. [Null, IterResult False v]) vs @ [outcome_args e])) \<rparr>"
    using Cons.prems as len by (intro Cons.IH) simp_all
  then show ?case using one as ne by simp
qed

lemma consume_after_completion:
  assumes "queue st = []" and "isDone st"
      and "list_all (\<lambda>a. isFunction (arg_at a 0) \<or> \<not> truthy (arg_at a 0)) as"
  shows "trace (consume as st) =
           trace st @ concat (map (\<lambda>a. delivered (arg_at a 0) [past_end]) as) \<and>
         isDone (consume as st) \<and> queue (consume as st) = []"
  using assms
proof (induction as arbitrary: st)
  case Nil
  then show ?case by simp
next
  case (Cons a as)
  let ?s1 = "st\<lparr> nextCallback := Some (Plain (or_nullFunc (arg_at a 0))),
               trace := trace st @ delivered (arg_at a 0) [past_end] \<rparr>"
  have one: "step (iter_next a st) = ?s1"
    using Cons.prems by (intro next_after_completion) simp_all
  have "trace (consume as ?s1) =
           trace ?s1 @ concat (map (\<lambda>a. delivered (arg_at a 0) [past_end]) as) \<and>
         isDone (consume as ?s1) \<and> queue (consume as ?s1) = []"
    using Cons.prems by (intro Cons.IH) simp_all
  then show ?case using one by simp
qed

text \<open>
  C9 (as amended). Take an iterator whose coroutine has not ended and for which no \<open>next\<close>
  is pending. A consumer that drives the coroutine to its end by calling \<open>next\<close> once per
  value and once more sees each value and then the outcome (the final value, or the
  error) passed exactly once to the callback of the \<open>next\<close> call that was pending. A
  \<open>forEach\<close> sees the outcome passed exactly once to \<open>done\<close> (for a truthy error). Where
  the consumer left the callback out, the no-op of the module is called in its place:
  the outcome, an error included, is passed to nobody.
\<close>

theorem outcome_passed_to_registered_callback:
  assumes "queue st = []" and "fiber st = Suspended vs e" and "\<not> isDone st"
      and "length as = length vs + 1"
      and "list_all (\<lambda>a. isFunction (arg_at a 0) \<or> \<not> truthy (arg_at a 0)) as"
      and "isFunction d \<or> \<not> truthy d" and "2 * length vs + 1 \<le> n"
  shows "fiber (consume as st) = Terminated \<and>
         trace (consume as st) =
           trace st @
           concat (map2 (\<lambda>a args. delivered (arg_at a 0) args) as
                     (map (\<lambda>v. [Null, IterResult False v]) vs @ [outcome_args e])) \<and>
         fiber (run n (snd (forEach [Fn cb, d] st))) = Terminated \<and>
         trace (run n (snd (forEach [Fn cb, d] st))) =
           trace st @ map (\<lambda>v. Called cb [v]) vs @ forEach_ending d e \<and>
         delivered Undefined (outcome_args e) = []"
  using consume_all[OF assms(1-5)] forEach_run(2)[OF assms(1-3,6,7), of cb]
  by (simp add: delivered_def)

text \<open>
  The theorem at a body that yields 111 and then throws, consumed with callbacks.
\<close>

theorem outcome_passed_to_registered_callback_witness:
  "queue (new_iterator [Num 111] (Throws out_of_range)) = [] \<and>
   fiber (new_iterator [Num 111] (Throws out_of_range)) = Suspended [Num 111] (Throws out_of_range) \<and>
   \<not> isDone (new_iterator [Num 111] (Throws out_of_range)) \<and>
   trace (consume [[Fn finished_fn], [Fn finished_fn]] (new_iterator [Num 111] (Throws out_of_range)))
     = [Called finished_fn [Null, IterResult False (Num 111)], Called finished_fn [out_of_range]] \<and>
   trace (run 3 (snd (forEach [Fn each_fn, Fn finished_fn] (new_iterator [Num 111] (Throws out_of_range)))))
     = [Called each_fn [Num 111], Called finished_fn [out_of_range]]"
proof -
  let ?it = "new_iterator [Num 111] (Throws out_of_range)"
  have a: "queue ?it = []" and b: "fiber ?it = Suspended [Num 111] (Throws out_of_range)"
    and c: "\<not> isDone ?it" and t: "trace ?it = []"
    by (simp_all add: new_iterator_def)
  have l: "length [[Fn finished_fn], [Fn finished_fn]] = length [Num 111] + 1" by simp
  have ok: "list_all (\<lambda>a. isFunction (arg_at a 0) \<or> \<not> truthy (arg_at a 0))
              [[Fn finished_fn], [Fn finished_fn]]"
    by (simp add: arg_at_def)
  have d: "isFunction (Fn finished_fn) \<or> \<not> truthy (Fn finished_fn)" by simp
  have n: "2 * length [Num 111] + 1 \<le> (3::nat)" by simp
  from outcome_passed_to_registered_callback[OF a b c l ok d n, of each_fn]
  show ?thesis using a b c t
    by (simp add: arg_at_def delivered_def outcome_args_def forEach_ending_def out_of_range_def)
qed

text \<open>
  C9 as stated fails when the callback is left out: a body that throws ends the
  coroutine, and neither \<open>next()\<close> nor \<open>forEach(callback)\<close> lets the consumer see the
  error.
\<close>

theorem omitted_callback_drops_error_counterexample:
  "fiber (consume [[]] (new_iterator [] (Throws out_of_range))) = Terminated \<and>
   trace (consume [[]] (new_iterator [] (Throws out_of_range))) = [] \<and>
   fiber (run 3 (snd (forEach [Fn each_fn] (new_iterator [Num 111] (Throws out_of_range)))))
     = Terminated \<and>
   trace (run 3 (snd (forEach [Fn each_fn] (new_iterator [Num 111] (Throws out_of_range)))))
     = [Called each_fn [Num 111]]"
proof -
  let ?it0 = "new_iterator [] (Throws out_of_range)"
  let ?it1 = "new_iterator [Num 111] (Throws out_of_range)"
  have "consume [[]] ?it0 = step (iter_next [] ?it0)" by simp
  also have "\<dots> = ?it0\<lparr> isDone := False, nextCallback := Some (Plain (or_nullFunc (arg_at [] 0))),
               fiber := Terminated,
               trace := trace ?it0 @ delivered (arg_at [] 0) (outcome_args (Throws out_of_range)) \<rparr>"
    using next_last_step[of ?it0 "Throws out_of_range" "[]"]
    by (simp add: new_iterator_def arg_at_def)
  finally have one: "fiber (consume [[]] ?it0) = Terminated \<and> trace (consume [[]] ?it0) = []"
    by (simp add: new_iterator_def arg_at_def delivered_def)
  have "forEach [Fn each_fn] ?it1 = forEach [Fn each_fn, Undefined] ?it1"
    by (simp add: forEach_def arg_at_def)
  moreover have "run 3 (snd (forEach [Fn each_fn, Undefined] ?it1)) =
           ?it1\<lparr> isDone := False,
               nextCallback := Some (ForEachStep (Fn each_fn) (or_nullFunc Undefined)),
               fiber := Terminated, queue := [],
               trace := trace ?it1 @ map (\<lambda>v. Called each_fn [v]) [Num 111] @
                          forEach_ending Undefined (Throws out_of_range) \<rparr>"
    using forEach_run(2)[of ?it1 "[Num 111]" "Throws out_of_range" Undefined 3 each_fn]
    by (simp add: new_iterator_def)
  ultimately have two: "fiber (run 3 (snd (forEach [Fn each_fn] ?it1))) = Terminated \<and>
     trace (run 3 (snd (forEach [Fn each_fn] ?it1))) = [Called each_fn [Num 111]]"
    by (simp add: new_iterator_def forEach_ending_def delivered_def out_of_range_def)
  from one two show ?thesis by simp
qed

text \<open>
  C2 at a body that throws on its first resumption. The error is delivered to the first
  \<open>next\<close>; the coroutine has ended, but \<open>throw\<close> has not set the field \<open>done\<close> (only
  \<open>return\<close> sets it). The second \<open>next\<close> therefore resumes the ended coroutine, and its
  callback does not receive the error "iterated past end". After a body that returned,
  the second \<open>next\<close> does receive it, and so does every later one
  (\<open>consume_after_completion\<close>).
\<close>

theorem next_after_throw_resumes_instead:
  "fiber (consume [[Fn finished_fn]] (new_iterator [] (Throws out_of_range))) = Terminated \<and>
   \<not> isDone (consume [[Fn finished_fn]] (new_iterator [] (Throws out_of_range))) \<and>
   trace (consume [[Fn finished_fn], [Fn finished_fn]] (new_iterator [] (Throws out_of_range)))
     = [Called finished_fn [out_of_range], ResumedTerminated] \<and>
   trace (consume [[Fn finished_fn], [Fn finished_fn]] (new_iterator [] (Returns (Str ''done''))))
     = [Called finished_fn [Null, IterResult True (Str ''done'')], Called finished_fn [past_end]]"
  by (simp add: new_iterator_def iter_next_def invokeNext_def step_def invokeNext_tick_def
        resume_def coro_throw_def coro_return_def call_nextCallback_def or_nullFunc_def
        arg_at_def)

end
